theory Spec2Isabelle
  imports Complex_Main "HOL-Library.Word" "HOL-Library.Log_Nat"
begin

section \<open>Single-precision arithmetic\<close>

text \<open>
  The firmware computes brightness and fade factors in C++ \<^verbatim>\<open>float\<close>, the IEEE 754
  binary32 format. A finite binary32 value is a rational number, so a \<^verbatim>\<open>float\<close> is modelled
  as a \<open>rat\<close> and every arithmetic operation as the exact operation followed by \<open>fl32\<close>,
  rounding to the nearest binary32 value with ties to the even significand. Overflow to
  infinity is not modelled: no operand of the program exceeds 65535.
\<close>

type_synonym float32 = rat

text \<open>Rounding to the nearest integer, ties to even.\<close>

definition rne :: "rat \<Rightarrow> int" where
  "rne x = (let f = \<lfloor>x\<rfloor>; d = x - of_int f in
     if d < 1 / 2 then f else if 1 / 2 < d then f + 1 else if even f then f else f + 1)"

text \<open>The binary exponent of a positive rational: \<open>2 powi ilog2 x \<le> x < 2 powi (ilog2 x + 1)\<close>.\<close>

definition ilog2 :: "rat \<Rightarrow> int" where
  "ilog2 x = (case quotient_of x of (p, q) \<Rightarrow>
     let k = bitlen p - bitlen q in if 2 powi k \<le> x then k else k - 1)"

text \<open>The exponent of the binade of \<open>x\<close>; below \<open>2 powi (- 126)\<close> the values are subnormal.\<close>

definition bexp :: "rat \<Rightarrow> int" where
  "bexp x = max (ilog2 \<bar>x\<bar>) (- 126)"

text \<open>Rounding to binary32: 24 significant bits, so one unit in the last place is
  \<open>2 powi (bexp x - 23)\<close>.\<close>

definition fl32 :: "rat \<Rightarrow> float32" where
  "fl32 x = (if x = 0 then 0 else
     let u = 2 powi (bexp x - 23) in of_int (rne (x / u)) * u)"

text \<open>\<^verbatim>\<open>static_cast<uint8_t>(x)\<close> of a float: the fraction is dropped (rounding towards
  zero). The conversion is undefined in C++ outside 0..255; \<open>scaleColor\<close> never leaves
  that range (lemma \<open>scaled_channel_le\<close>).\<close>

definition float_to_u8 :: "float32 \<Rightarrow> 8 word" where
  "float_to_u8 x = word_of_int (if 0 \<le> x then \<lfloor>x\<rfloor> else \<lceil>x\<rceil>)"

definition u8_to_float :: "8 word \<Rightarrow> float32" where
  "u8_to_float w = of_nat (unat w)"


section \<open>Data model\<close>

text \<open>The constants at the top of \<^verbatim>\<open>main.cpp\<close>.\<close>

definition MaxPixelCount :: "16 word" where
  "MaxPixelCount = 144"

definition SnakeSegmentLength :: nat where
  "SnakeSegmentLength = 5"

definition SnakeStepDelayMs :: "32 word" where
  "SnakeStepDelayMs = 80"

text \<open>\<^verbatim>\<open>RgbColor\<close> of the NeoPixelBus library: three 8-bit channels. \<^verbatim>\<open>RgbColor(0)\<close> is black.\<close>

datatype RgbColor = RgbColor (R: "8 word") (G: "8 word") (B: "8 word")

definition black :: RgbColor where
  "black = RgbColor 0 0 0"

datatype EffectMode = Fade | Solid | Snake | Off

record FadeChannelState =
  StartingColor :: RgbColor
  EndingColor :: RgbColor

record StripState =
  effect :: EffectMode
  solidColor :: RgbColor
  brightness :: "8 word"

text \<open>
  Modelled from the spec: \<^verbatim>\<open>NeoPixelAnimator\<close> belongs to the NeoPixelAnimator library,
  which is not part of the repository. The spec describes two states, idle and blending
  over a chosen duration; \<open>active\<close> is what \<^verbatim>\<open>IsAnimating()\<close> returns and \<open>duration\<close> the
  time given to \<^verbatim>\<open>StartAnimation\<close>.
\<close>

record Animator =
  active :: bool
  duration :: "16 word"

text \<open>
  The global variables of \<^verbatim>\<open>main.cpp\<close>. \<open>strip\<close> is the pixel buffer of the
  \<^verbatim>\<open>NeoPixelBus\<close> object (\<open>MaxPixelCount\<close> entries) and \<open>shown\<close> what the last
  \<^verbatim>\<open>strip.Show()\<close> latched to the LEDs. \<^verbatim>\<open>AnimationChannels\<close> is 1, so the array
  \<^verbatim>\<open>fadeChannels\<close> has the single entry \<^verbatim>\<open>fadeChannels[0]\<close>.
\<close>

record Globals =
  pixelCount :: "16 word"
  strip :: "RgbColor list"
  shown :: "RgbColor list"
  animations :: Animator
  fadeToColor :: bool
  snakeDirty :: bool
  snakeHead :: "16 word"
  lastSnakeStepMs :: "32 word"
  fadeChannels :: FadeChannelState
  stripState :: StripState
  solidDirty :: bool
  offDirty :: bool
  wifiConnected :: bool

text \<open>The initial values of the globals; the pixel buffer starts cleared.\<close>

definition initialGlobals :: Globals where
  "initialGlobals = \<lparr>
     pixelCount = 12,
     strip = replicate 144 black,
     shown = replicate 144 black,
     animations = \<lparr>active = False, duration = 0\<rparr>,
     fadeToColor = True,
     snakeDirty = True,
     snakeHead = 0,
     lastSnakeStepMs = 0,
     fadeChannels = \<lparr>StartingColor = black, EndingColor = black\<rparr>,
     stripState = \<lparr>effect = Fade, solidColor = RgbColor 255 80 10, brightness = 160\<rparr>,
     solidDirty = True,
     offDirty = True,
     wifiConnected = False\<rparr>"

text \<open>The parameters of a control request after \<^verbatim>\<open>hasParam\<close> and, for the numeric ones,
  \<^verbatim>\<open>value().toInt()\<close>: \<open>None\<close> when the parameter is absent.\<close>

record ControlRequest =
  req_mode :: "string option"
  req_brightness :: "int option"
  req_count :: "int option"
  req_r :: "int option"
  req_g :: "int option"
  req_b :: "int option"

text \<open>
  What one pass of \<^verbatim>\<open>loop()\<close> reads from its environment: the clock, the two random
  numbers of a new fade cycle, and what \<^verbatim>\<open>UpdateAnimations\<close> decides from the time elapsed
  (no callback yet, a callback at some progress, or the final callback of the cycle).
\<close>

datatype AnimTick = NoUpdate | Progress float32 | Completed

record Env =
  millis :: "32 word"
  random360 :: int
  randomTime :: int
  tick :: AnimTick


section \<open>Control surface\<close>

text \<open>Arduino's macro \<^verbatim>\<open>constrain(amt, low, high)\<close>.\<close>

definition constrain :: "'a::linorder \<Rightarrow> 'a \<Rightarrow> 'a \<Rightarrow> 'a" where
  "constrain amt low high = (if amt < low then low else if high < amt then high else amt)"

definition modeToString :: "EffectMode \<Rightarrow> string" where
  "modeToString m = (case m of Solid \<Rightarrow> ''solid'' | Snake \<Rightarrow> ''snake'' | Off \<Rightarrow> ''off''
     | Fade \<Rightarrow> ''fade'')"

text \<open>\<^verbatim>\<open>String::toLowerCase\<close>: \<^verbatim>\<open>tolower\<close> on every character, which changes A to Z only.\<close>

definition lowerChar :: "char \<Rightarrow> char" where
  "lowerChar c = (let n = (of_char c :: nat) in
     if 65 \<le> n \<and> n \<le> 90 then char_of (n + 32) else c)"

definition toLowerCase :: "string \<Rightarrow> string" where
  "toLowerCase v = map lowerChar v"

definition StopAll :: "Globals \<Rightarrow> Globals" where
  "StopAll s = s\<lparr>animations := (animations s)\<lparr>active := False\<rparr>\<rparr>"

definition IsAnimating :: "Globals \<Rightarrow> bool" where
  "IsAnimating s = active (animations s)"

definition StartAnimation :: "16 word \<Rightarrow> Globals \<Rightarrow> Globals" where
  "StartAnimation time s = s\<lparr>animations := \<lparr>active = True, duration = time\<rparr>\<rparr>"

definition applyModeFromString :: "string \<Rightarrow> Globals \<Rightarrow> bool \<times> Globals" where
  "applyModeFromString v s =
     (let lowered = toLowerCase v;
          cur = effect (stripState s);
          next = (if lowered = ''solid'' then Some Solid
                  else if lowered = ''off'' then Some Off
                  else if lowered = ''fade'' then Some Fade
                  else if lowered = ''snake'' then Some Snake
                  else None)
      in case next of
           None \<Rightarrow> (False, s)
         | Some n \<Rightarrow>
             if cur = n then (False, s)
             else (True, (StopAll (s\<lparr>stripState := (stripState s)\<lparr>effect := n\<rparr>\<rparr>))
                     \<lparr>fadeToColor := True, solidDirty := True, offDirty := True,
                      snakeDirty := True\<rparr>))"

definition setSolidColor :: "8 word \<Rightarrow> 8 word \<Rightarrow> 8 word \<Rightarrow> Globals \<Rightarrow> bool \<times> Globals" where
  "setSolidColor r g b s =
     (let c = solidColor (stripState s) in
      if R c = r \<and> G c = g \<and> B c = b then (False, s)
      else (True, s\<lparr>stripState := (stripState s)\<lparr>solidColor := RgbColor r g b\<rparr>,
                    solidDirty := True, snakeDirty := True\<rparr>))"

definition setBrightness :: "8 word \<Rightarrow> Globals \<Rightarrow> bool \<times> Globals" where
  "setBrightness v s =
     (let constrained = constrain v 0 255 in
      if brightness (stripState s) = constrained then (False, s)
      else (True, StopAll (s\<lparr>stripState := (stripState s)\<lparr>brightness := constrained\<rparr>,
                             solidDirty := True, offDirty := True, snakeDirty := True\<rparr>)))"

definition setPixelCount :: "16 word \<Rightarrow> Globals \<Rightarrow> bool \<times> Globals" where
  "setPixelCount cnt s =
     (let newCount = constrain cnt 1 MaxPixelCount in
      if pixelCount s = newCount then (False, s)
      else (True, StopAll (s\<lparr>pixelCount := newCount,
                             solidDirty := True, offDirty := True, snakeDirty := True\<rparr>)))"

text \<open>
  \<^verbatim>\<open>handleControlRequest\<close>: the four optional parts in the order of the source. The JSON
  reply and the serial log are built from the state afterwards and change nothing; the
  result is the flag \<^verbatim>\<open>changed\<close> and the new state.
\<close>

definition handleControlRequest :: "ControlRequest \<Rightarrow> Globals \<Rightarrow> bool \<times> Globals" where
  "handleControlRequest req s0 =
     (let (c1, s1) = (case req_mode req of
                        None \<Rightarrow> (False, s0)
                      | Some v \<Rightarrow> applyModeFromString v s0);
          (c2, s2) = (case req_brightness req of
                        None \<Rightarrow> (False, s1)
                      | Some v \<Rightarrow> setBrightness (word_of_int (constrain v 0 255)) s1);
          (c3, s3) = (case req_count req of
                        None \<Rightarrow> (False, s2)
                      | Some v \<Rightarrow> setPixelCount (word_of_int (constrain v 1 144)) s2);
          (c4, s4) = (case (req_r req, req_g req, req_b req) of
                        (Some r, Some g, Some b) \<Rightarrow>
                          setSolidColor (word_of_int (constrain r 0 255))
                            (word_of_int (constrain g 0 255))
                            (word_of_int (constrain b 0 255)) s3
                      | _ \<Rightarrow> (False, s3))
      in (c1 \<or> c2 \<or> c3 \<or> c4, s4))"


section \<open>Render driver\<close>

definition brightnessScale :: "Globals \<Rightarrow> float32" where
  "brightnessScale s =
     (let percent = fl32 (u8_to_float (brightness (stripState s)) / 255)
      in fl32 (percent * percent))"

definition brightnessToLuminance :: "Globals \<Rightarrow> float32" where
  "brightnessToLuminance s =
     (let luminance = fl32 (brightnessScale s * (1 / 2)) in
      if brightness (stripState s) = 0 then 0
      else max (fl32 (2 / 1000)) luminance)"

definition scaleColor :: "RgbColor \<Rightarrow> float32 \<Rightarrow> RgbColor" where
  "scaleColor color scale =
     (let clamped = constrain scale 0 1 in
      RgbColor (float_to_u8 (fl32 (u8_to_float (R color) * clamped)))
               (float_to_u8 (fl32 (u8_to_float (G color) * clamped)))
               (float_to_u8 (fl32 (u8_to_float (B color) * clamped))))"

definition applyBrightness :: "Globals \<Rightarrow> RgbColor \<Rightarrow> RgbColor" where
  "applyBrightness s color = scaleColor color (brightnessScale s)"

text \<open>\<^verbatim>\<open>strip.SetPixelColor\<close>: an index beyond the buffer is ignored, as by the list update.
  \<^verbatim>\<open>strip.Show()\<close> latches the buffer.\<close>

definition SetPixelColor :: "nat \<Rightarrow> RgbColor \<Rightarrow> Globals \<Rightarrow> Globals" where
  "SetPixelColor pixel color s = s\<lparr>strip := (strip s)[pixel := color]\<rparr>"

definition GetPixelColor :: "nat \<Rightarrow> Globals \<Rightarrow> RgbColor" where
  "GetPixelColor pixel s = strip s ! pixel"

definition Show :: "Globals \<Rightarrow> Globals" where
  "Show s = s\<lparr>shown := strip s\<rparr>"

text \<open>The two loops of \<^verbatim>\<open>writeColorToActivePixels\<close>, over \<open>0..<pixelCount\<close> and over
  \<open>pixelCount..<MaxPixelCount\<close>.\<close>

definition writeColorToActivePixels :: "RgbColor \<Rightarrow> Globals \<Rightarrow> Globals" where
  "writeColorToActivePixels color s =
     fold (\<lambda>pixel. SetPixelColor pixel black) [unat (pixelCount s) ..< unat MaxPixelCount]
       (fold (\<lambda>pixel. SetPixelColor pixel color) [0 ..< unat (pixelCount s)] s)"

definition applySolidColor :: "Globals \<Rightarrow> Globals" where
  "applySolidColor s =
     (Show (writeColorToActivePixels (applyBrightness s (solidColor (stripState s))) s))
       \<lparr>solidDirty := False, offDirty := True\<rparr>"

definition turnStripOff :: "Globals \<Rightarrow> Globals" where
  "turnStripOff s = (Show (writeColorToActivePixels black s))\<lparr>offDirty := False, solidDirty := True\<rparr>"


section \<open>Snake mode\<close>

definition resetSnakeEffect :: "Globals \<Rightarrow> Globals" where
  "resetSnakeEffect s =
     Show (writeColorToActivePixels black
       (s\<lparr>snakeHead := 0, lastSnakeStepMs := 0, snakeDirty := False\<rparr>))"

text \<open>\<^verbatim>\<open>1.0f - (static_cast<float>(offset) / SnakeSegmentLength)\<close>.\<close>

definition snakeFade :: "nat \<Rightarrow> float32" where
  "snakeFade offset = fl32 (1 - fl32 (of_nat offset / of_nat SnakeSegmentLength))"

text \<open>The \<^verbatim>\<open>for\<close> loop of \<^verbatim>\<open>runSnakeEffect\<close> from \<open>offset\<close> on, with its \<^verbatim>\<open>break\<close>. The pixel
  index is a \<^verbatim>\<open>uint16_t\<close>.\<close>

function snakeSegment :: "RgbColor \<Rightarrow> nat \<Rightarrow> Globals \<Rightarrow> Globals" where
  "snakeSegment baseColor offset s =
     (if offset < SnakeSegmentLength then
        (let pixel = snakeHead s + of_nat offset in
         if pixelCount s \<le> pixel then s
         else snakeSegment baseColor (offset + 1)
                (SetPixelColor (unat pixel) (scaleColor baseColor (snakeFade offset)) s))
      else s)"
  by pat_completeness auto
termination
  by (relation "measure (\<lambda>(c, offset, s). SnakeSegmentLength - offset)") auto

declare snakeSegment.simps [simp del]

text \<open>The part of \<^verbatim>\<open>runSnakeEffect\<close> after the early return: one step of the snake.
  \<^verbatim>\<open>(snakeHead + 1) % pixelCount\<close> is computed in \<^verbatim>\<open>int\<close>; the source divides by zero when
  \<open>pixelCount\<close> is 0, which \<open>setPixelCount\<close> rules out.\<close>

definition snakeStep :: "32 word \<Rightarrow> Globals \<Rightarrow> Globals" where
  "snakeStep now s =
     (let s1 = s\<lparr>lastSnakeStepMs := now\<rparr>;
          baseColor = applyBrightness s1 (solidColor (stripState s1));
          s2 = writeColorToActivePixels black s1;
          s3 = snakeSegment baseColor 0 s2;
          s4 = Show s3
      in s4\<lparr>snakeHead := of_nat ((unat (snakeHead s4) + 1) mod unat (pixelCount s4))\<rparr>)"

definition runSnakeEffect :: "32 word \<Rightarrow> Globals \<Rightarrow> Globals" where
  "runSnakeEffect now s =
     (let s1 = (if snakeDirty s then resetSnakeEffect s else s) in
      if lastSnakeStepMs s1 \<noteq> 0 \<and> now - lastSnakeStepMs s1 < SnakeStepDelayMs then s1
      else snakeStep now s1)"


text \<open>Whether a call of \<open>runSnakeEffect\<close> at time \<open>now\<close> gets past the early return and
  performs a step: always after a reset, and otherwise when no step has been timed yet
  or \<open>SnakeStepDelayMs\<close> have passed since the last one.\<close>

definition stepDue :: "32 word \<Rightarrow> Globals \<Rightarrow> bool" where
  "stepDue now s =
     (snakeDirty s \<or> \<not> (lastSnakeStepMs s \<noteq> 0 \<and> now - lastSnakeStepMs s < SnakeStepDelayMs))"

text \<open>\<open>loop()\<close> in Snake mode with no request in between: \<open>runSnakeEffect\<close> at each of the
  clock readings in turn. The result is the number of steps performed and the final state.\<close>

fun snakeTicks :: "32 word list \<Rightarrow> Globals \<Rightarrow> nat \<times> Globals" where
  "snakeTicks [] s = (0, s)"
| "snakeTicks (now # ts) s =
     (let (k, s') = snakeTicks ts (runSnakeEffect now s)
      in ((if stepDue now s then 1 else 0) + k, s'))"


section \<open>Fade mode\<close>

text \<open>
  Modelled from the spec: \<^verbatim>\<open>RgbColor::LinearBlend\<close> belongs to the NeoPixelBus library,
  which is not part of the repository. The spec calls it the linear interpolation from
  the starting colour to the ending colour at a progress between 0 and 1; each channel
  is \<open>left + (right - left) * progress\<close> with the fraction dropped.
\<close>

definition blendChannel :: "8 word \<Rightarrow> 8 word \<Rightarrow> float32 \<Rightarrow> 8 word" where
  "blendChannel l r progress =
     float_to_u8 (u8_to_float l + (u8_to_float r - u8_to_float l) * progress)"

definition LinearBlend :: "RgbColor \<Rightarrow> RgbColor \<Rightarrow> float32 \<Rightarrow> RgbColor" where
  "LinearBlend left right progress =
     RgbColor (blendChannel (R left) (R right) progress)
              (blendChannel (G left) (G right) progress)
              (blendChannel (B left) (B right) progress)"

definition BlendAnimUpdate :: "float32 \<Rightarrow> Globals \<Rightarrow> Globals" where
  "BlendAnimUpdate progress s =
     (let updatedColor = LinearBlend (StartingColor (fadeChannels s))
                           (EndingColor (fadeChannels s)) progress
      in if effect (stripState s) = Fade then writeColorToActivePixels updatedColor s else s)"

text \<open>
  \<^verbatim>\<open>FadeInFadeOutRinseRepeat\<close>. The conversion of an \<^verbatim>\<open>HslColor\<close> to an \<^verbatim>\<open>RgbColor\<close>
  belongs to the NeoPixelBus library and is the parameter \<open>hsl\<close> (hue, saturation,
  luminance); \<open>rnd360\<close> is \<^verbatim>\<open>random(360)\<close> and \<open>rndTime\<close> is \<^verbatim>\<open>random(2000, 4000)\<close>.
\<close>

definition FadeInFadeOutRinseRepeat ::
  "(float32 \<Rightarrow> float32 \<Rightarrow> float32 \<Rightarrow> RgbColor) \<Rightarrow> int \<Rightarrow> int \<Rightarrow> float32 \<Rightarrow> Globals \<Rightarrow> Globals" where
  "FadeInFadeOutRinseRepeat hsl rnd360 rndTime luminance s =
     (let target = hsl (fl32 (of_int rnd360 / 360)) 1 luminance;
          time = (word_of_int rndTime :: 16 word);
          s1 = (if IsAnimating s
                then s\<lparr>fadeChannels := (fadeChannels s)\<lparr>StartingColor := EndingColor (fadeChannels s)\<rparr>\<rparr>
                else s\<lparr>fadeChannels := (fadeChannels s)\<lparr>StartingColor := GetPixelColor 0 s\<rparr>\<rparr>);
          s2 = s1\<lparr>fadeChannels := (fadeChannels s1)\<lparr>EndingColor := target\<rparr>\<rparr>
      in StartAnimation time s2)"

text \<open>
  Modelled from the spec: \<^verbatim>\<open>UpdateAnimations\<close> belongs to the NeoPixelAnimator library.
  While a cycle is running, a tick calls \<open>BlendAnimUpdate\<close> with the progress reached;
  when the progress reaches 1 the cycle ends and the animator is idle again.
\<close>

definition UpdateAnimations :: "AnimTick \<Rightarrow> Globals \<Rightarrow> Globals" where
  "UpdateAnimations t s =
     (if IsAnimating s then
        (case t of
           NoUpdate \<Rightarrow> s
         | Progress p \<Rightarrow> BlendAnimUpdate p s
         | Completed \<Rightarrow> BlendAnimUpdate 1 (StopAll s))
      else s)"


section \<open>Mode dispatch\<close>

definition ensureEffectIsRunning ::
  "(float32 \<Rightarrow> float32 \<Rightarrow> float32 \<Rightarrow> RgbColor) \<Rightarrow> Env \<Rightarrow> Globals \<Rightarrow> Globals" where
  "ensureEffectIsRunning hsl env s =
     (case effect (stripState s) of
        Fade \<Rightarrow>
          (let s1 = s\<lparr>offDirty := True, solidDirty := True\<rparr>;
               s2 = (if \<not> IsAnimating s1
                     then FadeInFadeOutRinseRepeat hsl (random360 env) (randomTime env)
                            (brightnessToLuminance s1) s1
                     else s1)
           in Show (UpdateAnimations (tick env) s2))
      | Solid \<Rightarrow>
          (let s1 = (if IsAnimating s then StopAll s else s)
           in if solidDirty s1 then applySolidColor s1 else s1)
      | Snake \<Rightarrow>
          (let s1 = (if IsAnimating s then StopAll s else s)
           in runSnakeEffect (millis env) (s1\<lparr>offDirty := True, solidDirty := True\<rparr>))
      | Off \<Rightarrow>
          (let s1 = (if IsAnimating s then StopAll s else s)
           in if offDirty s1 then turnStripOff s1 else s1))"

text \<open>The range in which \<open>setPixelCount\<close> keeps the pixel count.\<close>

definition countInRange :: "Globals \<Rightarrow> bool" where
  "countInRange s = (1 \<le> pixelCount s \<and> pixelCount s \<le> MaxPixelCount)"


section \<open>States and requests used in the examples\<close>

text \<open>The state after \<open>turnStripOff\<close> has run on the initial state.\<close>

definition offRendered :: Globals where
  "offRendered = turnStripOff initialGlobals"

text \<open>A request with the parameters r=300, g=-5, b=7 and nothing else.\<close>

definition colorRequest :: ControlRequest where
  "colorRequest = \<lparr>req_mode = None, req_brightness = None, req_count = None,
     req_r = Some 300, req_g = Some (- 5), req_b = Some 7\<rparr>"

text \<open>Snake mode in the middle of a pass: the head at pixel 10 of 12, the last step
  taken at time 100.\<close>

definition snakeNearEnd :: Globals where
  "snakeNearEnd = initialGlobals\<lparr>snakeDirty := False, snakeHead := 10, lastSnakeStepMs := 100,
     stripState := (stripState initialGlobals)\<lparr>effect := Snake\<rparr>\<rparr>"

text \<open>The initial state after \<open>setBrightness 0\<close> and after \<open>setBrightness 255\<close>.\<close>

definition dimmedToZero :: Globals where
  "dimmedToZero = snd (setBrightness 0 initialGlobals)"

definition fullBrightness :: Globals where
  "fullBrightness = snd (setBrightness 255 initialGlobals)"

text \<open>The initial state with a fade cycle from black to (200,100,50) set up.\<close>

definition fadeSetUp :: Globals where
  "fadeSetUp = initialGlobals\<lparr>fadeChannels :=
     \<lparr>StartingColor = RgbColor 0 0 0, EndingColor = RgbColor 200 100 50\<rparr>\<rparr>"

text \<open>Snake mode on the initial state after \<open>setPixelCount 1\<close> and after
  \<open>setPixelCount 3\<close>.\<close>

definition snakeOnePixel :: Globals where
  "snakeOnePixel = snd (setPixelCount 1 (initialGlobals\<lparr>stripState :=
      (stripState initialGlobals)\<lparr>effect := Snake\<rparr>\<rparr>))"

definition snakeThreePixels :: Globals where
  "snakeThreePixels = snd (setPixelCount 3 (initialGlobals\<lparr>stripState :=
      (stripState initialGlobals)\<lparr>effect := Snake\<rparr>\<rparr>))"

text \<open>
  The examples need a conversion from HSL to RGB for the parameter \<open>hsl\<close>. They draw the
  hue 0 (\<open>random360 = 0\<close>) at the saturation 1 of the source, where the HSL colour of a
  luminance \<open>l\<close> up to 1/2 is the pure red whose red channel is \<open>2 * l\<close>; \<open>redHsl\<close> is that
  colour, whatever the hue.
\<close>

definition redHsl :: "float32 \<Rightarrow> float32 \<Rightarrow> float32 \<Rightarrow> RgbColor" where
  "redHsl h sat l = RgbColor (float_to_u8 (fl32 (fl32 (2 * l) * 255))) 0 0"

text \<open>A pass of the loop without a callback from the animator, and a pass in which the
  running cycle completes.\<close>

definition quietPass :: Env where
  "quietPass = \<lparr>millis = 0, random360 = 0, randomTime = 2000, tick = NoUpdate\<rparr>"

definition completingPass :: Env where
  "completingPass = \<lparr>millis = 2000, random360 = 0, randomTime = 2000, tick = Completed\<rparr>"

text \<open>A pass of the loop in which the animator calls back at progress 0.\<close>

definition firstCallbackPass :: Env where
  "firstCallbackPass = \<lparr>millis = 0, random360 = 0, randomTime = 2000, tick = Progress 0\<rparr>"

text \<open>The initial state switched to Solid mode and rendered once; then switched back to
  Fade mode (\<open>fadeEntered\<close>) and the brightness set to 0 (\<open>fadeAtZero\<close>).\<close>

definition solidShown :: Globals where
  "solidShown = ensureEffectIsRunning redHsl firstCallbackPass (snd (applyModeFromString ''solid'' initialGlobals))"


definition fadeAtZero :: Globals where
  "fadeAtZero = snd (setBrightness 0 (snd (applyModeFromString ''fade'' solidShown)))"


text \<open>From the initial state: a first fade cycle is started and completes; the mode is
  switched to Off and the strip rendered; the mode is switched back to Fade and the next
  pass starts a second cycle.\<close>

definition firstCycleDone :: Globals where
  "firstCycleDone = ensureEffectIsRunning redHsl completingPass (ensureEffectIsRunning redHsl quietPass initialGlobals)"

definition offShown :: Globals where
  "offShown = ensureEffectIsRunning redHsl quietPass (snd (applyModeFromString ''off'' firstCycleDone))"

definition secondCycle :: Globals where
  "secondCycle = ensureEffectIsRunning redHsl quietPass (snd (applyModeFromString ''fade'' offShown))"


section \<open>Properties of the rounding\<close>

lemma rne_of_int: "rne (of_int n) = n"
  by (simp add: rne_def)

lemma rne_mono: "x \<le> y \<Longrightarrow> rne x \<le> rne y"
proof -
  assume xy: "x \<le> y"
  have fl: "\<lfloor>x\<rfloor> \<le> \<lfloor>y\<rfloor>" using xy by (rule floor_mono)
  have ux: "rne x \<le> \<lfloor>x\<rfloor> + 1" by (simp add: rne_def Let_def)
  have ly: "\<lfloor>y\<rfloor> \<le> rne y" by (simp add: rne_def Let_def)
  show ?thesis
  proof (cases "\<lfloor>x\<rfloor> = \<lfloor>y\<rfloor>")
    case True
    then have "x - of_int \<lfloor>x\<rfloor> \<le> y - of_int \<lfloor>y\<rfloor>" using xy by simp
    then show ?thesis using True by (auto simp: rne_def Let_def)
  next
    case False
    then have "\<lfloor>x\<rfloor> + 1 \<le> \<lfloor>y\<rfloor>" using fl by simp
    then show ?thesis using ux ly by linarith
  qed
qed

lemma pow2_pos: "0 < (2::rat) powi k"
  by simp

lemma ilog2_bounds:
  assumes "0 < x"
  shows "2 powi (ilog2 x) \<le> x" and "x < 2 powi (ilog2 x + 1)"
proof -
  obtain p q where pq: "quotient_of x = (p, q)" by (cases "quotient_of x")
  have q: "0 < q" using pq by (rule quotient_of_denom_pos)
  have x: "x = of_int p / of_int q" using pq by (rule quotient_of_div)
  have p: "0 < p" using assms q x by (simp add: zero_less_divide_iff)
  define a where "a = bitlen p"
  define b where "b = bitlen q"
  have a1: "1 \<le> a" and b1: "1 \<le> b" using p q by (auto simp: a_def b_def bitlen_alt_def)
  have pb: "2 ^ nat (a - 1) \<le> p" "p < 2 ^ nat a"
    using bitlen_bounds[OF p] by (auto simp: a_def)
  have qb: "2 ^ nat (b - 1) \<le> q" "q < 2 ^ nat b"
    using bitlen_bounds[OF q] by (auto simp: b_def)
  have cast: "(2::rat) powi k = of_int (2 ^ nat k)" if "0 \<le> k" for k
    using that by (simp add: power_int_def)
  have pr: "(2::rat) powi (a - 1) \<le> of_int p" "of_int p < (2::rat) powi a"
    using pb a1 by (simp_all only: cast of_int_le_iff of_int_less_iff)
  have qr: "(2::rat) powi (b - 1) \<le> of_int q" "of_int q < (2::rat) powi b"
    using qb b1 by (simp_all only: cast of_int_le_iff of_int_less_iff)
  have qpos: "(0::rat) < of_int q" using q by simp
  have "x * of_int q = of_int p" using x qpos by simp
  have up: "x < 2 powi (a - b + 1)"
  proof -
    have "x * of_int q < 2 powi a" using \<open>x * of_int q = of_int p\<close> pr by simp
    moreover have "x * 2 powi (b - 1) \<le> x * of_int q" using qr assms by simp
    ultimately have "x * 2 powi (b - 1) < 2 powi a" by linarith
    then have "x < 2 powi a / 2 powi (b - 1)" by (simp add: pos_less_divide_eq)
    also have "\<dots> = 2 powi (a - (b - 1))" by (simp add: power_int_diff)
    finally show ?thesis by (simp add: algebra_simps)
  qed
  have lo: "2 powi (a - b - 1) < x"
  proof -
    have "2 powi (a - 1) \<le> x * of_int q" using \<open>x * of_int q = of_int p\<close> pr by simp
    moreover have "x * of_int q < x * 2 powi b" using qr assms by simp
    ultimately have "2 powi (a - 1) < x * 2 powi b" by linarith
    then have "2 powi (a - 1) / 2 powi b < x" by (simp add: pos_divide_less_eq)
    also have "2 powi (a - 1) / 2 powi b = (2::rat) powi (a - 1 - b)" by (simp add: power_int_diff)
    finally show ?thesis by (simp add: algebra_simps)
  qed
  show "2 powi (ilog2 x) \<le> x"
    using lo by (auto simp: ilog2_def pq a_def[symmetric] b_def[symmetric] Let_def)
  show "x < 2 powi (ilog2 x + 1)"
    using up by (auto simp: ilog2_def pq a_def[symmetric] b_def[symmetric] Let_def not_le)
qed

lemma p2_mono: "a \<le> b \<Longrightarrow> (2::rat) powi a \<le> 2 powi b"
  by (rule power_int_increasing) simp_all

lemma p2_less_D: "(2::rat) powi a < 2 powi b \<Longrightarrow> a < b"
  using p2_mono[of b a] by (cases "a < b") simp_all

lemma p2_add: "(2::rat) powi (a + b) = 2 powi a * 2 powi b"
  by (simp add: power_int_add)

lemma p2_diff: "(2::rat) powi (a - b) = 2 powi a / 2 powi b"
  by (simp add: power_int_diff)

lemma fl32_alt: "x \<noteq> 0 \<Longrightarrow> fl32 x = of_int (rne (x / 2 powi (bexp x - 23))) * 2 powi (bexp x - 23)"
  by (simp add: fl32_def Let_def)

lemma fl32_zero: "fl32 0 = 0"
  by (simp add: fl32_def)

lemma rne_nonneg: "0 \<le> x \<Longrightarrow> 0 \<le> rne x"
  using rne_mono[of 0 x] rne_of_int[of 0] by simp

lemma fl32_nonneg: "0 \<le> x \<Longrightarrow> 0 \<le> fl32 x"
  by (cases "x = 0") (simp_all add: fl32_alt fl32_zero rne_nonneg)

lemma ilog2_mono:
  assumes "0 < x" "x \<le> y"
  shows "ilog2 x \<le> ilog2 y"
proof -
  have "(2::rat) powi (ilog2 x) < 2 powi (ilog2 y + 1)"
    using ilog2_bounds(1)[OF assms(1)] ilog2_bounds(2)[of y] assms by linarith
  then have "ilog2 x < ilog2 y + 1"
    by (rule p2_less_D)
  then show ?thesis by simp
qed

lemma fl32_upper:
  assumes "0 < x"
  shows "fl32 x \<le> 2 powi (bexp x + 1)"
proof -
  let ?u = "(2::rat) powi (bexp x - 23)"
  have split: "(2::rat) powi (bexp x + 1) = of_int (2 ^ 24) * ?u"
    using p2_add[of "bexp x - 23" 24] by (simp add: mult.commute add.commute)
  have "x < 2 powi (ilog2 x + 1)" using ilog2_bounds(2)[OF assms] .
  also have "\<dots> \<le> 2 powi (bexp x + 1)"
    using assms by (intro p2_mono) (simp add: bexp_def)
  finally have "x \<le> of_int (2 ^ 24) * ?u"
    unfolding split by simp
  then have "x / ?u \<le> of_int (2 ^ 24)" by (simp add: pos_divide_le_eq)
  then have "rne (x / ?u) \<le> 2 ^ 24"
    using rne_mono rne_of_int by metis
  then have "(of_int (rne (x / ?u)) :: rat) \<le> of_int (2 ^ 24)"
    by (simp only: of_int_le_iff)
  then have "of_int (rne (x / ?u)) * ?u \<le> of_int (2 ^ 24) * ?u"
    by (simp add: mult_right_mono)
  then show ?thesis using assms unfolding split by (simp add: fl32_alt)
qed

lemma fl32_lower:
  assumes "0 < x" "bexp x = ilog2 x"
  shows "2 powi (bexp x) \<le> fl32 x"
proof -
  let ?u = "(2::rat) powi (bexp x - 23)"
  have split: "(2::rat) powi (bexp x) = of_int (2 ^ 23) * ?u"
    using p2_add[of "bexp x - 23" 23] by (simp add: mult.commute)
  have "of_int (2 ^ 23) * ?u \<le> x" using ilog2_bounds(1)[OF assms(1)] assms(2) split by simp
  then have "of_int (2 ^ 23) \<le> x / ?u" by (simp add: pos_le_divide_eq)
  then have "2 ^ 23 \<le> rne (x / ?u)"
    using rne_mono rne_of_int by metis
  then have "(of_int (2 ^ 23) :: rat) \<le> of_int (rne (x / ?u))"
    by (simp only: of_int_le_iff)
  then have "of_int (2 ^ 23) * ?u \<le> of_int (rne (x / ?u)) * ?u"
    by (simp add: mult_right_mono)
  then show ?thesis using assms unfolding split by (simp add: fl32_alt)
qed

lemma fl32_mono:
  assumes "0 \<le> x" "x \<le> y"
  shows "fl32 x \<le> fl32 y"
proof (cases "x = 0")
  case True
  then show ?thesis using assms fl32_nonneg[of y] by (simp add: fl32_zero)
next
  case False
  then have x: "0 < x" and y: "0 < y" using assms by simp_all
  have le: "bexp x \<le> bexp y"
    using ilog2_mono[OF x assms(2)] x y by (simp add: bexp_def)
  show ?thesis
  proof (cases "bexp x = bexp y")
    case True
    let ?u = "(2::rat) powi (bexp y - 23)"
    have "x / ?u \<le> y / ?u" using assms(2) by (simp add: divide_right_mono)
    then have "rne (x / ?u) \<le> rne (y / ?u)" by (rule rne_mono)
    then have "(of_int (rne (x / ?u)) :: rat) * ?u \<le> of_int (rne (y / ?u)) * ?u"
      by (simp add: mult_right_mono)
    then show ?thesis using x y True by (simp add: fl32_alt)
  next
    case False
    then have lt: "bexp x < bexp y" using le by simp
    then have ey: "bexp y = ilog2 y" using y by (simp add: bexp_def max_def split: if_splits)
    have "fl32 x \<le> 2 powi (bexp x + 1)" by (rule fl32_upper[OF x])
    also have "\<dots> \<le> 2 powi (bexp y)" using lt by (intro p2_mono) simp
    also have "\<dots> \<le> fl32 y" by (rule fl32_lower[OF y ey])
    finally show ?thesis .
  qed
qed

lemma fl32_of_int:
  assumes "0 \<le> n" "n < 2 ^ 24"
  shows "fl32 (of_int n) = of_int n"
proof (cases "n = 0")
  case True
  then show ?thesis by (simp add: fl32_zero)
next
  case False
  let ?x = "of_int n :: rat"
  have x: "0 < ?x" using False assms by simp
  have "(2::rat) powi (ilog2 ?x) \<le> ?x" by (rule ilog2_bounds(1)[OF x])
  also have "?x < of_int (2 ^ 24)" using assms(2) by (simp only: of_int_less_iff)
  finally have "(2::rat) powi (ilog2 ?x) < 2 powi 24" by simp
  then have hi: "ilog2 ?x < 24" by (rule p2_less_D)
  have "(2::rat) powi 0 \<le> ?x" using False assms by simp
  also have "?x < 2 powi (ilog2 ?x + 1)" by (rule ilog2_bounds(2)[OF x])
  finally have lo: "0 \<le> ilog2 ?x" using p2_less_D[of 0 "ilog2 ?x + 1"] by simp
  have e: "bexp ?x = ilog2 ?x" using lo x by (simp add: bexp_def)
  define k where "k = nat (23 - ilog2 ?x)"
  have u: "(2::rat) powi (bexp ?x - 23) = 1 / 2 ^ k"
    using hi by (simp add: e k_def power_int_def inverse_eq_divide power_one_over[symmetric] del: power_one_over)
  have "?x / (1 / 2 ^ k) = of_int (n * 2 ^ k)" by simp
  then have "rne (?x / (1 / 2 ^ k)) = n * 2 ^ k" by (simp only: rne_of_int)
  then show ?thesis using x by (simp add: fl32_alt u)
qed


section \<open>The pixel buffer\<close>

lemma fold_update_length: "length (fold (\<lambda>p xs. xs[p := c]) ps xs) = length xs"
  by (induction ps arbitrary: xs) simp_all

lemma fold_update_nth:
  "i < length xs \<Longrightarrow> fold (\<lambda>p xs. xs[p := c]) ps xs ! i = (if i \<in> set ps then c else xs ! i)"
proof (induction ps arbitrary: xs)
  case Nil
  then show ?case by simp
next
  case (Cons p ps)
  then show ?case by (simp add: nth_list_update)
qed

lemma fold_SetPixelColor:
  "fold (\<lambda>p. SetPixelColor p c) ps s = s\<lparr>strip := fold (\<lambda>p xs. xs[p := c]) ps (strip s)\<rparr>"
  by (induction ps arbitrary: s) (simp_all add: SetPixelColor_def)

lemma writeColor_frame:
  "writeColorToActivePixels c s = s\<lparr>strip := strip (writeColorToActivePixels c s)\<rparr>"
  by (simp add: writeColorToActivePixels_def fold_SetPixelColor)

lemma writeColor_length: "length (strip (writeColorToActivePixels c s)) = length (strip s)"
  by (simp add: writeColorToActivePixels_def fold_SetPixelColor fold_update_length)

lemma writeColor_nth:
  "i < length (strip s) \<Longrightarrow>
   strip (writeColorToActivePixels c s) ! i =
     (if i < unat (pixelCount s) then c else if i < 144 then black else strip s ! i)"
  by (simp add: writeColorToActivePixels_def fold_SetPixelColor fold_update_length
        fold_update_nth MaxPixelCount_def)

lemma turnStripOff_flags: "offDirty (turnStripOff s) = False" "solidDirty (turnStripOff s) = True"
  "stripState (turnStripOff s) = stripState s"
  by (simp_all add: turnStripOff_def Show_def writeColorToActivePixels_def fold_SetPixelColor)


section \<open>The mutators\<close>

lemma constrain_u8: "constrain (v :: 8 word) 0 255 = v"
proof -
  have "unat v < 2 ^ 8" using unsigned_less[of v, where ?'a = nat] by simp
  then have "v \<le> 255" by (simp add: word_le_nat_alt)
  then show ?thesis by (auto simp: constrain_def)
qed

lemma constrain_in_range: "low \<le> v \<Longrightarrow> v \<le> high \<Longrightarrow> constrain v low high = v"
  by (auto simp: constrain_def)

lemma toLowerCase_FaDe: "toLowerCase ''FaDe'' = ''fade''"
  by code_simp

text \<open>
  C1, as amended. When a mutator reports a change, the new value is stored and the dirty
  flags are set as follows: \<open>setSolidColor\<close> sets \<open>solidDirty\<close> and \<open>snakeDirty\<close> and
  leaves \<open>offDirty\<close> as it was (Off mode renders black whatever the colour);
  \<open>setBrightness\<close> and \<open>setPixelCount\<close> set all of \<open>solidDirty\<close>, \<open>offDirty\<close> and
  \<open>snakeDirty\<close>.
\<close>

theorem mutators_mark_dirty:
  "(fst (setSolidColor r g b s) \<longrightarrow>
      solidColor (stripState (snd (setSolidColor r g b s))) = RgbColor r g b \<and>
      solidDirty (snd (setSolidColor r g b s)) \<and>
      snakeDirty (snd (setSolidColor r g b s)) \<and>
      offDirty (snd (setSolidColor r g b s)) = offDirty s) \<and>
   (fst (setBrightness v s) \<longrightarrow>
      brightness (stripState (snd (setBrightness v s))) = v \<and>
      solidDirty (snd (setBrightness v s)) \<and>
      offDirty (snd (setBrightness v s)) \<and>
      snakeDirty (snd (setBrightness v s))) \<and>
   (fst (setPixelCount n s) \<longrightarrow>
      pixelCount (snd (setPixelCount n s)) = constrain n 1 MaxPixelCount \<and>
      solidDirty (snd (setPixelCount n s)) \<and>
      offDirty (snd (setPixelCount n s)) \<and>
      snakeDirty (snd (setPixelCount n s)))"
  by (simp add: setSolidColor_def setBrightness_def setPixelCount_def StopAll_def
        constrain_u8 Let_def)

text \<open>The three mutators on the initial state: colour (1,2,3), brightness 7, and a count
  of 200, which is clamped to 144.\<close>

theorem mutators_mark_dirty_witness:
  "fst (setSolidColor 1 2 3 initialGlobals) \<and>
   solidColor (stripState (snd (setSolidColor 1 2 3 initialGlobals))) = RgbColor 1 2 3 \<and>
   solidDirty (snd (setSolidColor 1 2 3 initialGlobals)) \<and>
   snakeDirty (snd (setSolidColor 1 2 3 initialGlobals)) \<and>
   fst (setBrightness 7 initialGlobals) \<and>
   brightness (stripState (snd (setBrightness 7 initialGlobals))) = 7 \<and>
   offDirty (snd (setBrightness 7 initialGlobals)) \<and>
   fst (setPixelCount 200 initialGlobals) \<and>
   pixelCount (snd (setPixelCount 200 initialGlobals)) = 144 \<and>
   offDirty (snd (setPixelCount 200 initialGlobals))"
  using mutators_mark_dirty [of 1 2 3 initialGlobals 7 200]
  by (simp add: setSolidColor_def setBrightness_def setPixelCount_def constrain_def
        MaxPixelCount_def initialGlobals_def Let_def)

text \<open>
  C1 as stated fails for the colour: once \<open>turnStripOff\<close> has cleared \<open>offDirty\<close>, the
  call \<open>setSolidColor 1 2 3\<close> changes the colour and \<open>offDirty\<close> is still false.
\<close>

theorem setSolidColor_leaves_offDirty:
  "\<not> offDirty offRendered \<and> fst (setSolidColor 1 2 3 offRendered) \<and>
   \<not> offDirty (snd (setSolidColor 1 2 3 offRendered))"
  by (simp add: offRendered_def setSolidColor_def turnStripOff_flags initialGlobals_def Let_def)

text \<open>
  C7. A string whose lower-case form (the form \<open>applyModeFromString\<close> compares) is none
  of "fade", "solid", "snake", "off" makes \<open>applyModeFromString\<close> return false and the
  state, every field of it, is the one before the call.
\<close>

theorem applyModeFromString_unknown_token:
  "toLowerCase v \<notin> {''fade'', ''solid'', ''snake'', ''off''} \<Longrightarrow>
   applyModeFromString v s = (False, s)"
  by (simp add: applyModeFromString_def Let_def)

theorem applyModeFromString_unknown_token_witness:
  "toLowerCase ''purple'' \<notin> {''fade'', ''solid'', ''snake'', ''off''} \<and>
   applyModeFromString ''purple'' initialGlobals = (False, initialGlobals)"
  using applyModeFromString_unknown_token [of "''purple''" initialGlobals]
  by (simp add: toLowerCase_def lowerChar_def)

text \<open>
  C8. Each mutator called with the current value returns false and returns the state
  unchanged: \<open>applyModeFromString\<close> with a token that is the current mode's name in any
  mix of cases, \<open>setSolidColor\<close> with the current channels, \<open>setBrightness\<close> with the
  current brightness, and \<open>setPixelCount\<close> with the current count, which is between 1 and
  \<open>MaxPixelCount\<close> in every state the program reaches.
\<close>

theorem mutators_noop_on_current_value:
  "(toLowerCase v = modeToString (effect (stripState s)) \<longrightarrow>
      applyModeFromString v s = (False, s)) \<and>
   setSolidColor (R (solidColor (stripState s))) (G (solidColor (stripState s)))
      (B (solidColor (stripState s))) s = (False, s) \<and>
   setBrightness (brightness (stripState s)) s = (False, s) \<and>
   (1 \<le> pixelCount s \<and> pixelCount s \<le> MaxPixelCount \<longrightarrow>
      setPixelCount (pixelCount s) s = (False, s))"
  by (cases "effect (stripState s)")
     (simp_all add: applyModeFromString_def modeToString_def setSolidColor_def
       setBrightness_def setPixelCount_def constrain_u8 constrain_in_range Let_def)

theorem mutators_noop_on_current_value_witness:
  "toLowerCase ''FaDe'' = modeToString (effect (stripState initialGlobals)) \<and>
   applyModeFromString ''FaDe'' initialGlobals = (False, initialGlobals) \<and>
   setSolidColor 255 80 10 initialGlobals = (False, initialGlobals) \<and>
   setBrightness 160 initialGlobals = (False, initialGlobals) \<and>
   1 \<le> pixelCount initialGlobals \<and> pixelCount initialGlobals \<le> MaxPixelCount \<and>
   setPixelCount 12 initialGlobals = (False, initialGlobals)"
  using mutators_noop_on_current_value [of "''FaDe''" initialGlobals]
  by (simp add: toLowerCase_FaDe modeToString_def initialGlobals_def MaxPixelCount_def)

text \<open>
  C10. A control request without the parameters mode, brightness and count leaves the
  effect mode, the brightness and the pixel count as they were; the state after it
  differs from the state before at most in \<open>solidColor\<close>, \<open>solidDirty\<close> and \<open>snakeDirty\<close>.
\<close>

theorem color_request_frame:
  "req_mode req = None \<Longrightarrow> req_brightness req = None \<Longrightarrow> req_count req = None \<Longrightarrow>
   effect (stripState (snd (handleControlRequest req s))) = effect (stripState s) \<and>
   brightness (stripState (snd (handleControlRequest req s))) = brightness (stripState s) \<and>
   pixelCount (snd (handleControlRequest req s)) = pixelCount s \<and>
   snd (handleControlRequest req s) =
     s\<lparr>stripState := (stripState s)\<lparr>solidColor :=
          solidColor (stripState (snd (handleControlRequest req s)))\<rparr>,
       solidDirty := solidDirty (snd (handleControlRequest req s)),
       snakeDirty := snakeDirty (snd (handleControlRequest req s))\<rparr>"
  by (auto simp: handleControlRequest_def setSolidColor_def Let_def split: option.splits)

text \<open>The request r=300, g=-5, b=7 on the initial state: the colour becomes (255,0,7),
  clamped, and the mode is still Fade, the brightness 160 and the count 12.\<close>

theorem color_request_frame_witness:
  "req_mode colorRequest = None \<and> req_brightness colorRequest = None \<and>
   req_count colorRequest = None \<and>
   handleControlRequest colorRequest initialGlobals =
     (True, initialGlobals\<lparr>stripState := (stripState initialGlobals)\<lparr>solidColor := RgbColor 255 0 7\<rparr>,
        solidDirty := True, snakeDirty := True\<rparr>) \<and>
   effect (stripState (snd (handleControlRequest colorRequest initialGlobals))) = Fade \<and>
   brightness (stripState (snd (handleControlRequest colorRequest initialGlobals))) = 160 \<and>
   pixelCount (snd (handleControlRequest colorRequest initialGlobals)) = 12"
  using color_request_frame [of colorRequest initialGlobals]
  by (simp add: colorRequest_def handleControlRequest_def setSolidColor_def constrain_def
        initialGlobals_def Let_def)


section \<open>Brightness scaling\<close>

lemma fl32_one: "fl32 1 = 1"
  using fl32_of_int[of 1] by simp

lemma u8_lt_256: "unat (w :: 8 word) < 256"
  using unsigned_less[of w, where ?'a = nat] by simp

lemma u8_to_float_int: "u8_to_float w = rat_of_int (int (unat w))"
  by (simp only: u8_to_float_def of_int_of_nat_eq)

lemma fl32_of_u8: "fl32 (u8_to_float w) = u8_to_float w"
proof -
  have "int (unat w) < 16777216" using u8_lt_256[of w] by linarith
  moreover have "(2::int) ^ 24 = 16777216" by simp
  ultimately have "int (unat w) < 2 ^ 24" by (simp only:)
  moreover have "0 \<le> int (unat w)" by (rule of_nat_0_le_iff)
  ultimately show ?thesis unfolding u8_to_float_int by (intro fl32_of_int)
qed

lemma u8_of_int_unat: "(word_of_int (int (unat w)) :: 8 word) = w"
  by simp

lemma float_to_u8_of_u8: "float_to_u8 (u8_to_float w) = w"
  unfolding u8_to_float_int float_to_u8_def
  by (simp only: of_int_0_le_iff of_nat_0_le_iff if_True floor_of_int u8_of_int_unat)

lemma u8_to_float_nonneg: "0 \<le> u8_to_float w"
  unfolding u8_to_float_int by (simp only: of_int_0_le_iff of_nat_0_le_iff)

lemma u8_to_float_mono: "v \<le> w \<Longrightarrow> u8_to_float v \<le> u8_to_float w"
  unfolding u8_to_float_int by (simp only: of_int_le_iff of_nat_le_iff word_le_nat_alt)

lemma u8_to_float_numeral: "u8_to_float 0 = 0" "u8_to_float 255 = 255"
  unfolding u8_to_float_int by simp_all

lemma constrain_unit: "0 \<le> constrain (x :: rat) 0 1" "constrain (x :: rat) 0 1 \<le> 1"
  by (auto simp: constrain_def)

lemma unat_u8_of_int: "0 \<le> k \<Longrightarrow> k < 256 \<Longrightarrow> unat (word_of_int k :: 8 word) = nat k"
  by (simp add: unat_eq_nat_uint uint_word_of_int take_bit_int_eq_self)

lemma scaled_channel_le: "unat (float_to_u8 (fl32 (u8_to_float w * constrain sc 0 1))) \<le> unat w"
proof -
  let ?x = "u8_to_float w * constrain sc 0 1"
  have x0: "0 \<le> ?x" using u8_to_float_nonneg constrain_unit(1) by simp
  have x1: "?x \<le> u8_to_float w"
    using u8_to_float_nonneg[of w] constrain_unit(2)[of sc] by (simp add: mult_left_le)
  have f0: "0 \<le> fl32 ?x" using x0 by (rule fl32_nonneg)
  have "fl32 ?x \<le> fl32 (u8_to_float w)" using x0 x1 by (rule fl32_mono)
  moreover have "fl32 (u8_to_float w) = rat_of_int (int (unat w))"
    using fl32_of_u8[of w] u8_to_float_int[of w] by (simp only:)
  ultimately have f1: "fl32 ?x \<le> rat_of_int (int (unat w))"
    by (simp only:)
  have k0: "0 \<le> \<lfloor>fl32 ?x\<rfloor>" using f0 by simp
  have k1: "\<lfloor>fl32 ?x\<rfloor> \<le> int (unat w)"
    using f1 floor_mono[of "fl32 ?x" "rat_of_int (int (unat w))"] by (simp only: floor_of_int)
  have k2: "\<lfloor>fl32 ?x\<rfloor> < 256" using k1 u8_lt_256[of w] by linarith
  have "unat (word_of_int \<lfloor>fl32 ?x\<rfloor> :: 8 word) = nat \<lfloor>fl32 ?x\<rfloor>"
    using k0 k2 by (rule unat_u8_of_int)
  moreover have "nat \<lfloor>fl32 ?x\<rfloor> \<le> unat w" using k0 k1 by linarith
  moreover have "float_to_u8 (fl32 ?x) = word_of_int \<lfloor>fl32 ?x\<rfloor>"
    using f0 by (simp add: float_to_u8_def)
  ultimately show ?thesis by (simp only:)
qed

lemma rne_error: "\<bar>of_int (rne x) - x\<bar> \<le> 1 / 2"
proof -
  have "of_int \<lfloor>x\<rfloor> \<le> x" "x < of_int \<lfloor>x\<rfloor> + 1" by linarith+
  then show ?thesis by (auto simp: rne_def Let_def abs_le_iff)
qed

lemma fl32_error_unit:
  assumes "0 \<le> x" "x \<le> 1"
  shows "\<bar>fl32 x - x\<bar> \<le> 1 / 2 ^ 24"
proof (cases "x = 0")
  case True
  then show ?thesis by (simp add: fl32_zero)
next
  case False
  then have x: "0 < x" using assms by simp
  let ?u = "(2::rat) powi (bexp x - 23)"
  have "(2::rat) powi (ilog2 x) \<le> 2 powi 0" using ilog2_bounds(1)[OF x] assms(2) by simp
  then have "ilog2 x \<le> 0" by (rule power_int_le_imp_le_exp[rotated]) simp_all
  then have "bexp x \<le> 0" using x by (simp add: bexp_def)
  then have "?u \<le> 2 powi (- 23)" by (intro p2_mono) simp
  then have u: "?u \<le> 1 / 2 ^ 23" by (simp add: power_int_minus_divide)
  have u0: "0 < ?u" by simp
  have "fl32 x - x = (of_int (rne (x / ?u)) - x / ?u) * ?u"
    using x by (simp add: fl32_alt algebra_simps)
  then have "\<bar>fl32 x - x\<bar> = \<bar>of_int (rne (x / ?u)) - x / ?u\<bar> * ?u"
    using u0 by (simp add: abs_mult)
  also have "\<dots> \<le> (1 / 2) * ?u"
    using rne_error[of "x / ?u"] u0 by (intro mult_right_mono) simp_all
  also have "\<dots> \<le> (1 / 2) * (1 / 2 ^ 23)" using u by simp
  finally show ?thesis by simp
qed

lemma fl32_le_one: "0 \<le> x \<Longrightarrow> x \<le> 1 \<Longrightarrow> fl32 x \<le> 1"
  using fl32_mono[of x 1] by (simp add: fl32_one)

lemma brightnessScale_mono:
  assumes "brightness (stripState s) \<le> brightness (stripState t)"
  shows "brightnessScale s \<le> brightnessScale t"
proof -
  let ?p = "\<lambda>s. fl32 (u8_to_float (brightness (stripState s)) / 255)"
  have "u8_to_float (brightness (stripState s)) \<le> u8_to_float (brightness (stripState t))"
    using assms by (rule u8_to_float_mono)
  then have le: "?p s \<le> ?p t"
    by (intro fl32_mono) (simp_all add: u8_to_float_nonneg divide_right_mono)
  have p0: "0 \<le> ?p s" by (intro fl32_nonneg) (simp add: u8_to_float_nonneg)
  have "?p s * ?p s \<le> ?p t * ?p t" using le p0 by (simp add: mult_mono)
  then have "fl32 (?p s * ?p s) \<le> fl32 (?p t * ?p t)" using p0 by (intro fl32_mono) simp_all
  then show ?thesis by (simp add: brightnessScale_def Let_def)
qed

lemma brightnessScale_zero: "brightness (stripState s) = 0 \<Longrightarrow> brightnessScale s = 0"
  by (simp add: brightnessScale_def u8_to_float_numeral fl32_zero)

lemma brightnessScale_full: "brightness (stripState s) = 255 \<Longrightarrow> brightnessScale s = 1"
  by (simp add: brightnessScale_def u8_to_float_numeral fl32_one)

lemma scaleColor_zero: "scaleColor c 0 = black"
  by (simp add: scaleColor_def constrain_def fl32_zero float_to_u8_def black_def)

lemma scaleColor_one: "scaleColor c 1 = c"
  by (simp add: scaleColor_def constrain_def fl32_of_u8 float_to_u8_of_u8)


lemma brightnessScale_close:
  "\<bar>brightnessScale s - (u8_to_float (brightness (stripState s)) / 255)\<^sup>2\<bar> \<le> 3 / 2 ^ 24"
proof -
  let ?b = "u8_to_float (brightness (stripState s)) / 255"
  let ?p = "fl32 ?b"
  have b0: "0 \<le> ?b" by (simp add: u8_to_float_nonneg)
  have "u8_to_float (brightness (stripState s)) \<le> u8_to_float 255"
    by (rule u8_to_float_mono) (simp add: word_le_nat_alt u8_lt_256 less_Suc_eq_le[symmetric])
  then have b1: "?b \<le> 1" by (simp add: u8_to_float_numeral)
  have p0: "0 \<le> ?p" using b0 by (rule fl32_nonneg)
  have p1: "?p \<le> 1" using b0 b1 by (rule fl32_le_one)
  have e1: "\<bar>?p - ?b\<bar> \<le> 1 / 2 ^ 24" using b0 b1 by (rule fl32_error_unit)
  have pp: "0 \<le> ?p * ?p" "?p * ?p \<le> 1" using p0 p1 by (simp_all add: mult_le_one)
  have e2: "\<bar>fl32 (?p * ?p) - ?p * ?p\<bar> \<le> 1 / 2 ^ 24" using pp by (rule fl32_error_unit)
  have "?p * ?p - ?b\<^sup>2 = (?p - ?b) * (?p + ?b)" by (simp add: power2_eq_square algebra_simps)
  then have "\<bar>?p * ?p - ?b\<^sup>2\<bar> = \<bar>?p - ?b\<bar> * (?p + ?b)"
    using p0 b0 by (simp add: abs_mult)
  also have "\<dots> \<le> (1 / 2 ^ 24) * 2"
    using e1 p0 p1 b0 b1 by (intro mult_mono) simp_all
  finally have e3: "\<bar>?p * ?p - ?b\<^sup>2\<bar> \<le> 2 / 2 ^ 24" by simp
  have "\<bar>fl32 (?p * ?p) - ?b\<^sup>2\<bar> \<le> \<bar>fl32 (?p * ?p) - ?p * ?p\<bar> + \<bar>?p * ?p - ?b\<^sup>2\<bar>"
    by linarith
  then have "\<bar>fl32 (?p * ?p) - ?b\<^sup>2\<bar> \<le> 3 / 2 ^ 24" using e2 e3 by simp
  then show ?thesis by (simp add: brightnessScale_def Let_def)
qed

text \<open>
  C6. For every brightness and every colour, each channel of \<open>applyBrightness\<close> is at
  most the channel of the input; the scale factor \<open>brightnessScale\<close>, which is the square
  of brightness/255 up to the rounding of single precision, does not decrease when the
  brightness grows; at brightness 0 the result is black and at brightness 255 it is the
  input colour.
\<close>

theorem applyBrightness_scaling:
  "unat (R (applyBrightness s c)) \<le> unat (R c) \<and>
   unat (G (applyBrightness s c)) \<le> unat (G c) \<and>
   unat (B (applyBrightness s c)) \<le> unat (B c) \<and>
   \<bar>brightnessScale s - (u8_to_float (brightness (stripState s)) / 255)\<^sup>2\<bar> \<le> 3 / 2 ^ 24 \<and>
   (brightness (stripState s) \<le> brightness (stripState t) \<longrightarrow>
      brightnessScale s \<le> brightnessScale t) \<and>
   (brightness (stripState s) = 0 \<longrightarrow> applyBrightness s c = RgbColor 0 0 0) \<and>
   (brightness (stripState s) = 255 \<longrightarrow> applyBrightness s c = c)"
  using brightnessScale_mono[of s t] brightnessScale_close[of s]
  by (simp add: applyBrightness_def scaled_channel_le brightnessScale_zero brightnessScale_full
        scaleColor_zero scaleColor_one scaleColor_def[of c "brightnessScale s"] Let_def black_def)

lemma brightness_examples: "brightness (stripState dimmedToZero) = 0" "brightness (stripState fullBrightness) = 255"
  "brightness (stripState initialGlobals) = 160"
  by (simp_all add: dimmedToZero_def fullBrightness_def setBrightness_def constrain_u8 StopAll_def
        initialGlobals_def)

lemma applyBrightness_initial: "applyBrightness initialGlobals (RgbColor 255 80 10) = RgbColor 100 31 3"
  by code_simp

text \<open>Brightness 0, 255 and 160 (the initial one) on the initial colour (255,80,10).\<close>

theorem applyBrightness_scaling_witness:
  "brightness (stripState dimmedToZero) = 0 \<and>
   applyBrightness dimmedToZero (RgbColor 255 80 10) = RgbColor 0 0 0 \<and>
   brightness (stripState fullBrightness) = 255 \<and>
   applyBrightness fullBrightness (RgbColor 255 80 10) = RgbColor 255 80 10 \<and>
   brightness (stripState initialGlobals) \<le> brightness (stripState fullBrightness) \<and>
   brightnessScale initialGlobals \<le> brightnessScale fullBrightness \<and>
   applyBrightness initialGlobals (RgbColor 255 80 10) = RgbColor 100 31 3"
  using applyBrightness_scaling [of dimmedToZero "RgbColor 255 80 10" fullBrightness]
    applyBrightness_scaling [of fullBrightness "RgbColor 255 80 10" fullBrightness]
    applyBrightness_scaling [of initialGlobals "RgbColor 255 80 10" fullBrightness]
  by (simp add: brightness_examples applyBrightness_initial)


section \<open>The snake\<close>

lemma snakeSegment_frame:
  "snakeSegment base off s = s\<lparr>strip := strip (snakeSegment base off s)\<rparr>"
proof (induction base off s rule: snakeSegment.induct)
  case (1 base off s)
  show ?case
  proof (cases "off < SnakeSegmentLength \<and> \<not> pixelCount s \<le> snakeHead s + of_nat off")
    case True
    let ?s' = "SetPixelColor (unat (snakeHead s + of_nat off)) (scaleColor base (snakeFade off)) s"
    have step: "snakeSegment base off s = snakeSegment base (off + 1) ?s'"
      using True by (subst snakeSegment.simps) (simp add: Let_def)
    have "snakeSegment base (off + 1) ?s' = ?s'\<lparr>strip := strip (snakeSegment base (off + 1) ?s')\<rparr>"
      using True "1.IH"[OF _ refl] by simp
    then show ?thesis unfolding step by (simp add: SetPixelColor_def)
  next
    case False
    then have "snakeSegment base off s = s"
      by (subst snakeSegment.simps) (auto simp: Let_def)
    then show ?thesis by simp
  qed
qed

lemma head_offset:
  assumes "unat (h :: 16 word) < 144" "off < 5"
  shows "unat (h + of_nat off) = unat h + off"
proof -
  have "unat (of_nat off :: 16 word) = off" using assms(2) by (simp add: unat_of_nat)
  then have "unat (h + of_nat off) = (unat h + off) mod 2 ^ 16"
    by (simp add: unat_word_ariths(1))
  then show ?thesis using assms by simp
qed

lemma snakeSegment_length: "length (strip (snakeSegment base off s)) = length (strip s)"
proof (induction base off s rule: snakeSegment.induct)
  case (1 base off s)
  show ?case
  proof (cases "off < SnakeSegmentLength \<and> \<not> pixelCount s \<le> snakeHead s + of_nat off")
    case True
    let ?s' = "SetPixelColor (unat (snakeHead s + of_nat off)) (scaleColor base (snakeFade off)) s"
    have step: "snakeSegment base off s = snakeSegment base (off + 1) ?s'"
      using True by (subst snakeSegment.simps) (simp add: Let_def)
    have "length (strip (snakeSegment base (off + 1) ?s')) = length (strip ?s')"
      using True "1.IH"[OF _ refl] by simp
    then show ?thesis unfolding step by (simp add: SetPixelColor_def)
  next
    case False
    then have "snakeSegment base off s = s"
      by (subst snakeSegment.simps) (auto simp: Let_def)
    then show ?thesis by simp
  qed
qed

lemma snakeSegment_nth:
  "unat (snakeHead s) < unat (pixelCount s) \<Longrightarrow> unat (pixelCount s) \<le> 144 \<Longrightarrow>
   i < length (strip s) \<Longrightarrow>
   strip (snakeSegment base off s) ! i =
     (if unat (snakeHead s) + off \<le> i \<and> i < unat (snakeHead s) + SnakeSegmentLength \<and>
         i < unat (pixelCount s)
      then scaleColor base (snakeFade (i - unat (snakeHead s))) else strip s ! i)"
proof (induction base off s rule: snakeSegment.induct)
  case (1 base off s)
  show ?case
  proof (cases "off < SnakeSegmentLength")
    case False
    then have "snakeSegment base off s = s"
      by (subst snakeSegment.simps) simp
    moreover have "\<not> (unat (snakeHead s) + off \<le> i \<and> i < unat (snakeHead s) + SnakeSegmentLength)"
      using False by linarith
    ultimately show ?thesis by auto
  next
    case True
    then have off5: "off < 5" by (simp add: SnakeSegmentLength_def)
    have h144: "unat (snakeHead s) < 144" using "1.prems" by simp
    have px: "unat (snakeHead s + of_nat off) = unat (snakeHead s) + off"
      using h144 off5 by (rule head_offset)
    show ?thesis
    proof (cases "pixelCount s \<le> snakeHead s + of_nat off")
      case brk: True
      then have "snakeSegment base off s = s"
        by (subst snakeSegment.simps) (simp add: Let_def)
      moreover have "unat (pixelCount s) \<le> unat (snakeHead s) + off"
        using brk px by (simp add: word_le_nat_alt)
      ultimately show ?thesis by auto
    next
      case go: False
      let ?s' = "SetPixelColor (unat (snakeHead s + of_nat off)) (scaleColor base (snakeFade off)) s"
      have step: "snakeSegment base off s = snakeSegment base (off + 1) ?s'"
        using True go by (subst snakeSegment.simps) (simp add: Let_def)
      have lt: "unat (snakeHead s) + off < unat (pixelCount s)"
        using go px by (simp add: word_le_nat_alt)
      have ih: "strip (snakeSegment base (off + 1) ?s') ! i =
        (if unat (snakeHead ?s') + (off + 1) \<le> i \<and> i < unat (snakeHead ?s') + SnakeSegmentLength \<and>
            i < unat (pixelCount ?s')
         then scaleColor base (snakeFade (i - unat (snakeHead ?s'))) else strip ?s' ! i)"
        using "1.prems" by (intro "1.IH"[OF True refl go]) (simp_all add: SetPixelColor_def)
      show ?thesis
      proof (cases "i = unat (snakeHead s) + off")
        case True
        then have "i - unat (snakeHead s) = off" by simp
        then show ?thesis unfolding step ih using "1.prems" lt px True \<open>off < SnakeSegmentLength\<close>
          by (simp add: SetPixelColor_def)
      next
        case False
        then show ?thesis unfolding step ih using "1.prems" lt px
          by (auto simp: SetPixelColor_def nth_list_update)
      qed
    qed
  qed
qed

lemma resetSnakeEffect_fields:
  "snakeHead (resetSnakeEffect s) = 0" "lastSnakeStepMs (resetSnakeEffect s) = 0"
  "snakeDirty (resetSnakeEffect s) = False" "pixelCount (resetSnakeEffect s) = pixelCount s"
  "stripState (resetSnakeEffect s) = stripState s"
  "length (strip (resetSnakeEffect s)) = length (strip s)"
  by (simp_all add: resetSnakeEffect_def Show_def writeColorToActivePixels_def
        fold_SetPixelColor fold_update_length)

lemma runSnakeEffect_cases:
  "runSnakeEffect now s =
     (if stepDue now s then snakeStep now (if snakeDirty s then resetSnakeEffect s else s) else s)"
  by (auto simp: runSnakeEffect_def stepDue_def resetSnakeEffect_fields Let_def)

lemma applyBrightness_stripState:
  "stripState s = stripState t \<Longrightarrow> applyBrightness s c = applyBrightness t c"
  by (simp add: applyBrightness_def brightnessScale_def)

lemma snakeSegment_pixelCount: "pixelCount (snakeSegment b off s) = pixelCount s"
  by (subst snakeSegment_frame) simp

lemma snakeSegment_stripState: "stripState (snakeSegment b off s) = stripState s"
  by (subst snakeSegment_frame) simp

lemma snakeSegment_snakeDirty: "snakeDirty (snakeSegment b off s) = snakeDirty s"
  by (subst snakeSegment_frame) simp

lemma snakeSegment_last: "lastSnakeStepMs (snakeSegment b off s) = lastSnakeStepMs s"
  by (subst snakeSegment_frame) simp

lemma snakeSegment_snakeHead: "snakeHead (snakeSegment b off s) = snakeHead s"
  by (subst snakeSegment_frame) simp

lemmas snakeSegment_fields = snakeSegment_pixelCount snakeSegment_stripState
  snakeSegment_snakeDirty snakeSegment_last snakeSegment_snakeHead snakeSegment_length

lemma snakeStep_fields:
  "pixelCount (snakeStep now s) = pixelCount s" "stripState (snakeStep now s) = stripState s"
  "snakeDirty (snakeStep now s) = snakeDirty s" "lastSnakeStepMs (snakeStep now s) = now"
  "snakeHead (snakeStep now s) = of_nat ((unat (snakeHead s) + 1) mod unat (pixelCount s))"
  "shown (snakeStep now s) = strip (snakeStep now s)"
  "length (strip (snakeStep now s)) = length (strip s)"
  by (simp_all add: snakeStep_def Show_def Let_def snakeSegment_fields
        writeColorToActivePixels_def fold_SetPixelColor fold_update_length)

lemma snakeStep_nth:
  assumes "length (strip s) = 144" "unat (pixelCount s) \<le> 144" "i < 144"
  shows "strip (snakeStep now s) ! i =
     (if unat (snakeHead s) \<le> i \<and> i < unat (snakeHead s) + SnakeSegmentLength \<and>
         i < unat (pixelCount s)
      then scaleColor (applyBrightness s (solidColor (stripState s)))
             (snakeFade (i - unat (snakeHead s)))
      else black)"
proof -
  let ?s1 = "s\<lparr>lastSnakeStepMs := now\<rparr>"
  let ?base = "applyBrightness ?s1 (solidColor (stripState ?s1))"
  let ?s2 = "writeColorToActivePixels black ?s1"
  have base: "applyBrightness ?s1 c = applyBrightness s c" for c
    by (rule applyBrightness_stripState) simp
  have f2: "pixelCount ?s2 = pixelCount s" "snakeHead ?s2 = snakeHead s"
    "length (strip ?s2) = 144"
    using assms(1) by (simp_all add: writeColorToActivePixels_def fold_SetPixelColor fold_update_length)
  have b2: "strip ?s2 ! i = black"
    using assms writeColor_nth[of i ?s1 black] by simp
  have st: "strip (snakeStep now s) = strip (snakeSegment ?base 0 ?s2)"
    by (simp add: snakeStep_def Show_def Let_def)
  show ?thesis
  proof (cases "unat (snakeHead s) < unat (pixelCount s)")
    case True
    then show ?thesis
      unfolding st using snakeSegment_nth[of ?s2 i ?base 0] assms f2 b2 by (simp add: base)
  next
    case False
    then have "pixelCount ?s2 \<le> snakeHead ?s2 + of_nat 0"
      by (simp add: f2 word_le_nat_alt)
    then have "snakeSegment ?base 0 ?s2 = ?s2"
      by (subst snakeSegment.simps) (simp add: Let_def)
    then show ?thesis unfolding st using False b2 by auto
  qed
qed

lemma unat_mod_head:
  assumes "1 \<le> n" "n \<le> (144 :: 16 word)"
  shows "unat (of_nat (k mod unat n) :: 16 word) = k mod unat n"
proof -
  have "0 < unat n" using assms(1) by (simp add: word_le_nat_alt)
  moreover have "unat n \<le> 144" using assms(2) by (simp add: word_le_nat_alt)
  ultimately have "k mod unat n < 65536"
    using mod_less_divisor[of "unat n" k] by linarith
  then show ?thesis by (simp add: unat_of_nat)
qed

lemma snakeFade_values:
  "snakeFade 0 = 1" "snakeFade 1 = 13421773 / 16777216" "snakeFade 2 = 5033165 / 8388608"
  "snakeFade 3 = 3355443 / 8388608" "snakeFade 4 = 3355443 / 16777216"
  "snakeFade (Suc 0) = 13421773 / 16777216"
  by code_simp+

lemma snakeFade_close:
  assumes "k < SnakeSegmentLength"
  shows "\<bar>snakeFade k - (1 - of_nat k / of_nat SnakeSegmentLength)\<bar> < 1 / 2 ^ 24"
proof -
  have "k = 0 \<or> k = 1 \<or> k = 2 \<or> k = 3 \<or> k = 4"
    using assms by (auto simp: SnakeSegmentLength_def)
  then show ?thesis
    by (elim disjE) (simp_all add: snakeFade_values SnakeSegmentLength_def)
qed

lemma runSnakeEffect_nth:
  assumes "stepDue now s" "length (strip s) = 144" "pixelCount s \<le> MaxPixelCount" "i < 144"
  shows "strip (runSnakeEffect now s) ! i =
     (if (if snakeDirty s then 0 else unat (snakeHead s)) \<le> i \<and>
         i < (if snakeDirty s then 0 else unat (snakeHead s)) + SnakeSegmentLength \<and>
         i < unat (pixelCount s)
      then scaleColor (applyBrightness s (solidColor (stripState s)))
             (snakeFade (i - (if snakeDirty s then 0 else unat (snakeHead s))))
      else black)"
proof -
  have n: "unat (pixelCount s) \<le> 144"
    using assms(3) by (simp add: MaxPixelCount_def word_le_nat_alt)
  show ?thesis
  proof (cases "snakeDirty s")
    case True
    have "applyBrightness (resetSnakeEffect s) c = applyBrightness s c" for c
      by (rule applyBrightness_stripState) (simp add: resetSnakeEffect_fields)
    then show ?thesis
      using True assms n snakeStep_nth[of "resetSnakeEffect s" i now]
      by (simp add: runSnakeEffect_cases resetSnakeEffect_fields)
  next
    case False
    then show ?thesis
      using assms n snakeStep_nth[of s i now] by (simp add: runSnakeEffect_cases)
  qed
qed

lemma runSnakeEffect_head:
  assumes "stepDue now s" "1 \<le> pixelCount s" "pixelCount s \<le> MaxPixelCount"
  shows "unat (snakeHead (runSnakeEffect now s)) =
     ((if snakeDirty s then 0 else unat (snakeHead s)) + 1) mod unat (pixelCount s)"
  using assms unat_mod_head[of "pixelCount s"]
  by (simp add: runSnakeEffect_cases snakeStep_fields resetSnakeEffect_fields MaxPixelCount_def)

text \<open>
  C4, as amended. On a tick of Snake mode at which a step is due (no reset pending, and no
  step timed yet or \<open>SnakeStepDelayMs\<close> elapsed), with the head inside the active range:
  after \<open>runSnakeEffect\<close> every pixel of the buffer is black except the run that starts at
  the head and is cut at \<open>pixelCount\<close>: pixel \<open>head + k\<close>, for \<open>k\<close> below
  \<open>SnakeSegmentLength\<close> and \<open>head + k\<close> below \<open>pixelCount\<close>, holds the brightness-scaled
  solid colour scaled once more by \<open>snakeFade k\<close>, the single-precision value of
  \<open>1 - k / SnakeSegmentLength\<close>. The buffer is latched and the head becomes
  \<open>(head + 1) mod pixelCount\<close>.
\<close>

theorem snake_step_render:
  assumes "\<not> snakeDirty s"
    and "lastSnakeStepMs s = 0 \<or> SnakeStepDelayMs \<le> now - lastSnakeStepMs s"
    and "length (strip s) = 144"
    and "snakeHead s < pixelCount s"
    and "pixelCount s \<le> MaxPixelCount"
  shows "(\<forall>i<144. strip (runSnakeEffect now s) ! i =
           (if unat (snakeHead s) \<le> i \<and> i < unat (snakeHead s) + SnakeSegmentLength \<and>
               i < unat (pixelCount s)
            then scaleColor (applyBrightness s (solidColor (stripState s)))
                   (snakeFade (i - unat (snakeHead s)))
            else black)) \<and>
         (\<forall>k<SnakeSegmentLength.
            \<bar>snakeFade k - (1 - of_nat k / of_nat SnakeSegmentLength)\<bar> < 1 / 2 ^ 24) \<and>
         shown (runSnakeEffect now s) = strip (runSnakeEffect now s) \<and>
         unat (snakeHead (runSnakeEffect now s)) =
           (unat (snakeHead s) + 1) mod unat (pixelCount s)"
proof -
  have due: "stepDue now s" using assms(2) by (auto simp: stepDue_def)
  have one: "1 \<le> pixelCount s"
    using assms(4) by (simp add: word_le_nat_alt word_less_nat_alt)
  have "\<forall>i<144. strip (runSnakeEffect now s) ! i =
           (if unat (snakeHead s) \<le> i \<and> i < unat (snakeHead s) + SnakeSegmentLength \<and>
               i < unat (pixelCount s)
            then scaleColor (applyBrightness s (solidColor (stripState s)))
                   (snakeFade (i - unat (snakeHead s)))
            else black)"
    using runSnakeEffect_nth[OF due assms(3) assms(5)] assms(1) by simp
  moreover have "shown (runSnakeEffect now s) = strip (runSnakeEffect now s)"
    using due assms(1) by (simp add: runSnakeEffect_cases snakeStep_fields)
  moreover have "unat (snakeHead (runSnakeEffect now s)) =
           (unat (snakeHead s) + 1) mod unat (pixelCount s)"
    using runSnakeEffect_head[OF due one assms(5)] assms(1) by simp
  ultimately show ?thesis using snakeFade_close by blast
qed

lemma snakeNearEnd_base: "applyBrightness snakeNearEnd (solidColor (stripState snakeNearEnd)) = RgbColor 100 31 3"
  by code_simp

lemma scaled_base_colors:
  "scaleColor (RgbColor 100 31 3) (snakeFade 0) = RgbColor 100 31 3"
  "scaleColor (RgbColor 100 31 3) (snakeFade 1) = RgbColor 80 24 2"
  "scaleColor (RgbColor 100 31 3) (snakeFade 2) = RgbColor 60 18 1"
  "scaleColor (RgbColor 100 31 3) (snakeFade (Suc 0)) = RgbColor 80 24 2"
  by code_simp+

lemma snakeNearEnd_fields: "snakeDirty snakeNearEnd = False" "lastSnakeStepMs snakeNearEnd = 100"
  "length (strip snakeNearEnd) = 144" "snakeHead snakeNearEnd = 10" "pixelCount snakeNearEnd = 12"
  by (simp_all add: snakeNearEnd_def initialGlobals_def)

text \<open>The head at pixel 10 of 12, at time 1000: pixels 10 and 11 are lit, pixel 9 is
  black, and the head moves to 11.\<close>

theorem snake_step_render_witness:
  "\<not> snakeDirty snakeNearEnd \<and> SnakeStepDelayMs \<le> 1000 - lastSnakeStepMs snakeNearEnd \<and>
   length (strip snakeNearEnd) = 144 \<and> snakeHead snakeNearEnd < pixelCount snakeNearEnd \<and>
   pixelCount snakeNearEnd \<le> MaxPixelCount \<and>
   strip (runSnakeEffect 1000 snakeNearEnd) ! 9 = RgbColor 0 0 0 \<and>
   strip (runSnakeEffect 1000 snakeNearEnd) ! 10 = RgbColor 100 31 3 \<and>
   strip (runSnakeEffect 1000 snakeNearEnd) ! 11 = RgbColor 80 24 2 \<and>
   snakeHead (runSnakeEffect 1000 snakeNearEnd) = 11"
proof -
  have h: "\<not> snakeDirty snakeNearEnd"
    "lastSnakeStepMs snakeNearEnd = 0 \<or> SnakeStepDelayMs \<le> 1000 - lastSnakeStepMs snakeNearEnd"
    "length (strip snakeNearEnd) = 144" "snakeHead snakeNearEnd < pixelCount snakeNearEnd"
    "pixelCount snakeNearEnd \<le> MaxPixelCount"
    by (simp_all add: snakeNearEnd_fields SnakeStepDelayMs_def MaxPixelCount_def)
  note t = snake_step_render[OF h]
  have "strip (runSnakeEffect 1000 snakeNearEnd) ! 9 = RgbColor 0 0 0"
    "strip (runSnakeEffect 1000 snakeNearEnd) ! 10 = RgbColor 100 31 3"
    "strip (runSnakeEffect 1000 snakeNearEnd) ! 11 = RgbColor 80 24 2"
    using t by (simp_all add: snakeNearEnd_fields snakeNearEnd_base scaled_base_colors SnakeSegmentLength_def black_def)
  moreover have "unat (snakeHead (runSnakeEffect 1000 snakeNearEnd)) = unat (11 :: 16 word)"
    using t by (simp add: snakeNearEnd_fields)
  then have "snakeHead (runSnakeEffect 1000 snakeNearEnd) = 11"
    by (simp only: word_unat_eq_iff)
  ultimately show ?thesis using h by (simp add: snakeNearEnd_fields SnakeStepDelayMs_def)
qed

text \<open>
  C4 as stated fails near the end of the strip. With the head at pixel 10 of 12, the
  pixel at offset 2 is pixel 12: it is black after the step, not the colour (60,18,1)
  that offset 2 would carry.
\<close>

theorem snake_run_cut_at_pixelCount:
  "snakeHead snakeNearEnd = 10 \<and> pixelCount snakeNearEnd = 12 \<and>
   strip (runSnakeEffect 1000 snakeNearEnd) ! 12 = RgbColor 0 0 0 \<and>
   scaleColor (applyBrightness snakeNearEnd (solidColor (stripState snakeNearEnd))) (snakeFade 2)
     = RgbColor 60 18 1"
proof -
  have "stepDue 1000 snakeNearEnd" by (simp add: stepDue_def snakeNearEnd_fields SnakeStepDelayMs_def)
  then have "strip (runSnakeEffect 1000 snakeNearEnd) ! 12 = RgbColor 0 0 0"
    using runSnakeEffect_nth[of 1000 snakeNearEnd 12]
    by (simp add: snakeNearEnd_fields MaxPixelCount_def black_def)
  then show ?thesis by (simp add: snakeNearEnd_fields snakeNearEnd_base scaled_base_colors)
qed


section \<open>Renders and the inactive pixels\<close>

lemma applySolidColor_nth:
  "length (strip s) = 144 \<Longrightarrow> i < 144 \<Longrightarrow>
   strip (applySolidColor s) ! i =
     (if i < unat (pixelCount s) then applyBrightness s (solidColor (stripState s)) else black)"
  using writeColor_nth[of i s "applyBrightness s (solidColor (stripState s))"]
  by (simp add: applySolidColor_def Show_def)

lemma turnStripOff_nth:
  "length (strip s) = 144 \<Longrightarrow> i < 144 \<Longrightarrow> strip (turnStripOff s) ! i = black"
  using writeColor_nth[of i s black] by (simp add: turnStripOff_def Show_def)

lemma resetSnakeEffect_nth:
  "length (strip s) = 144 \<Longrightarrow> i < 144 \<Longrightarrow> strip (resetSnakeEffect s) ! i = black"
  using writeColor_nth[of i "s\<lparr>snakeHead := 0, lastSnakeStepMs := 0, snakeDirty := False\<rparr>" black]
  by (simp add: resetSnakeEffect_def Show_def)

lemma BlendAnimUpdate_nth:
  "effect (stripState s) = Fade \<Longrightarrow> length (strip s) = 144 \<Longrightarrow> i < 144 \<Longrightarrow>
   strip (BlendAnimUpdate p s) ! i =
     (if i < unat (pixelCount s)
      then LinearBlend (StartingColor (fadeChannels s)) (EndingColor (fadeChannels s)) p
      else black)"
  using writeColor_nth[of i s]
  by (simp add: BlendAnimUpdate_def Let_def)

text \<open>
  C5. With a pixel count \<open>c\<close> between 1 and \<open>MaxPixelCount\<close> and a buffer of
  \<open>MaxPixelCount\<close> pixels, after each render every pixel from \<open>c\<close> on is black and every
  pixel below \<open>c\<close> holds the colour the effect computes: the brightness-scaled solid
  colour after \<open>applySolidColor\<close>, black after \<open>turnStripOff\<close> and \<open>resetSnakeEffect\<close>,
  the snake's run (from pixel 0 when a reset was pending) after a call of
  \<open>runSnakeEffect\<close> that performs a step, and the blend of the two fade endpoints after
  \<open>BlendAnimUpdate\<close> in Fade mode, the only mode in which it writes.
\<close>

theorem render_blacks_out_inactive_pixels:
  assumes "length (strip s) = 144" and "1 \<le> pixelCount s" and "pixelCount s \<le> MaxPixelCount"
    and "i < 144"
  shows "strip (applySolidColor s) ! i =
           (if i < unat (pixelCount s) then applyBrightness s (solidColor (stripState s))
            else black) \<and>
         strip (turnStripOff s) ! i = black \<and>
         strip (resetSnakeEffect s) ! i = black \<and>
         (stepDue now s \<longrightarrow>
            strip (runSnakeEffect now s) ! i =
              (if (if snakeDirty s then 0 else unat (snakeHead s)) \<le> i \<and>
                  i < (if snakeDirty s then 0 else unat (snakeHead s)) + SnakeSegmentLength \<and>
                  i < unat (pixelCount s)
               then scaleColor (applyBrightness s (solidColor (stripState s)))
                      (snakeFade (i - (if snakeDirty s then 0 else unat (snakeHead s))))
               else black)) \<and>
         (effect (stripState s) = Fade \<longrightarrow>
            strip (BlendAnimUpdate p s) ! i =
              (if i < unat (pixelCount s)
               then LinearBlend (StartingColor (fadeChannels s)) (EndingColor (fadeChannels s)) p
               else black))"
  using assms applySolidColor_nth[of s i] turnStripOff_nth[of s i] resetSnakeEffect_nth[of s i]
    runSnakeEffect_nth[of now s i] BlendAnimUpdate_nth[of s i p]
  by simp

lemma fadeSetUp_fields: "length (strip fadeSetUp) = 144" "pixelCount fadeSetUp = 12"
  "snakeDirty fadeSetUp = True" "effect (stripState fadeSetUp) = Fade"
  "fadeChannels fadeSetUp = \<lparr>StartingColor = RgbColor 0 0 0, EndingColor = RgbColor 200 100 50\<rparr>"
  by (simp_all add: fadeSetUp_def initialGlobals_def)

lemma fadeSetUp_base: "applyBrightness fadeSetUp (solidColor (stripState fadeSetUp)) = RgbColor 100 31 3"
  by code_simp

lemma blend_half: "LinearBlend (RgbColor 0 0 0) (RgbColor 200 100 50) (1 / 2) = RgbColor 100 50 25"
  by code_simp

text \<open>Pixels 11 and 12 of the initial strip of 12 active pixels, after each of the five
  renders.\<close>

theorem render_blacks_out_inactive_pixels_witness:
  "length (strip fadeSetUp) = 144 \<and> 1 \<le> pixelCount fadeSetUp \<and>
   pixelCount fadeSetUp \<le> MaxPixelCount \<and> stepDue 0 fadeSetUp \<and>
   effect (stripState fadeSetUp) = Fade \<and>
   strip (applySolidColor fadeSetUp) ! 11 = RgbColor 100 31 3 \<and>
   strip (applySolidColor fadeSetUp) ! 12 = RgbColor 0 0 0 \<and>
   strip (turnStripOff fadeSetUp) ! 11 = RgbColor 0 0 0 \<and>
   strip (resetSnakeEffect fadeSetUp) ! 12 = RgbColor 0 0 0 \<and>
   strip (runSnakeEffect 0 fadeSetUp) ! 0 = RgbColor 100 31 3 \<and>
   strip (runSnakeEffect 0 fadeSetUp) ! 12 = RgbColor 0 0 0 \<and>
   strip (BlendAnimUpdate (1 / 2) fadeSetUp) ! 11 = RgbColor 100 50 25 \<and>
   strip (BlendAnimUpdate (1 / 2) fadeSetUp) ! 12 = RgbColor 0 0 0"
proof -
  have h: "length (strip fadeSetUp) = 144" "1 \<le> pixelCount fadeSetUp"
    "pixelCount fadeSetUp \<le> MaxPixelCount"
    by (simp_all add: fadeSetUp_fields MaxPixelCount_def)
  have due: "stepDue 0 fadeSetUp" by (simp add: stepDue_def fadeSetUp_fields)
  have c0: "scaleColor (RgbColor 100 31 3) (snakeFade 0) = RgbColor 100 31 3"
    by (rule scaled_base_colors)
  show ?thesis
    using render_blacks_out_inactive_pixels[OF h, of 11 0 "1 / 2"]
      render_blacks_out_inactive_pixels[OF h, of 12 0 "1 / 2"]
      render_blacks_out_inactive_pixels[OF h, of 0 0 "1 / 2"] h due
    by (simp add: fadeSetUp_fields fadeSetUp_base blend_half c0 black_def SnakeSegmentLength_def)
qed


section \<open>The head of the snake\<close>

lemma runSnakeEffect_not_due: "\<not> stepDue now s \<Longrightarrow> runSnakeEffect now s = s"
  by (simp add: runSnakeEffect_cases)

lemma runSnakeEffect_fields:
  "pixelCount (runSnakeEffect now s) = pixelCount s"
  "stripState (runSnakeEffect now s) = stripState s"
  "length (strip (runSnakeEffect now s)) = length (strip s)"
  "stepDue now s \<Longrightarrow> \<not> snakeDirty (runSnakeEffect now s)"
  by (simp_all add: runSnakeEffect_cases snakeStep_fields resetSnakeEffect_fields)

lemma snakeTicks_none: "fst (snakeTicks ts s) = 0 \<Longrightarrow> snd (snakeTicks ts s) = s"
proof (induction ts arbitrary: s)
  case Nil
  then show ?case by simp
next
  case (Cons now ts)
  obtain k s' where r: "snakeTicks ts (runSnakeEffect now s) = (k, s')"
    by (cases "snakeTicks ts (runSnakeEffect now s)")
  from Cons.prems r have nd: "\<not> stepDue now s" and k: "k = 0"
    by (auto split: if_splits)
  from nd have same: "runSnakeEffect now s = s" by (rule runSnakeEffect_not_due)
  from Cons.IH[of s] r k same show ?case by simp
qed

lemma snakeTicks_Cons:
  "snd (snakeTicks (now # ts) s) = snd (snakeTicks ts (runSnakeEffect now s))"
  "fst (snakeTicks (now # ts) s) =
     (if stepDue now s then 1 else 0) + fst (snakeTicks ts (runSnakeEffect now s))"
  by (simp_all split: prod.splits)

lemma snakeTicks_pixelCount: "pixelCount (snd (snakeTicks ts s)) = pixelCount s"
  by (induction ts arbitrary: s) (simp_all only: snakeTicks.simps(1) snd_conv snakeTicks_Cons runSnakeEffect_fields)

lemma snakeTicks_stripState: "stripState (snd (snakeTicks ts s)) = stripState s"
  by (induction ts arbitrary: s) (simp_all only: snakeTicks.simps(1) snd_conv snakeTicks_Cons runSnakeEffect_fields)

lemma snakeTicks_length: "length (strip (snd (snakeTicks ts s))) = length (strip s)"
  by (induction ts arbitrary: s) (simp_all only: snakeTicks.simps(1) snd_conv snakeTicks_Cons runSnakeEffect_fields)

lemma snakeTicks_head:
  assumes "1 \<le> pixelCount s" "pixelCount s \<le> MaxPixelCount"
    and "snakeDirty s \<longrightarrow> snakeHead s = 0" and "unat (snakeHead s) < unat (pixelCount s)"
  shows "unat (snakeHead (snd (snakeTicks ts s))) =
           (unat (snakeHead s) + fst (snakeTicks ts s)) mod unat (pixelCount s)"
  using assms
proof (induction ts arbitrary: s)
  case Nil
  then show ?case by simp
next
  case (Cons now ts)
  let ?s1 = "runSnakeEffect now s"
  obtain k s' where r: "snakeTicks ts ?s1 = (k, s')" by (cases "snakeTicks ts ?s1")
  have pos: "0 < unat (pixelCount s)" using Cons.prems(1) by (simp add: word_le_nat_alt)
  show ?case
  proof (cases "stepDue now s")
    case False
    then have "?s1 = s" by (rule runSnakeEffect_not_due)
    then show ?thesis using Cons.IH[of s] Cons.prems False by simp
  next
    case True
    have eff: "(if snakeDirty s then 0 else unat (snakeHead s)) = unat (snakeHead s)"
      using Cons.prems(3) by auto
    have h1: "unat (snakeHead ?s1) = (unat (snakeHead s) + 1) mod unat (pixelCount s)"
      using runSnakeEffect_head[OF True Cons.prems(1,2)] eff by simp
    then have lt: "unat (snakeHead ?s1) < unat (pixelCount ?s1)"
      using pos by (simp add: runSnakeEffect_fields)
    have "unat (snakeHead (snd (snakeTicks ts ?s1))) =
        (unat (snakeHead ?s1) + fst (snakeTicks ts ?s1)) mod unat (pixelCount ?s1)"
      using Cons.prems True lt by (intro Cons.IH) (simp_all add: runSnakeEffect_fields)
    then have "unat (snakeHead s') =
        ((unat (snakeHead s) + 1) mod unat (pixelCount s) + k) mod unat (pixelCount s)"
      using r h1 by (simp add: runSnakeEffect_fields)
    also have "\<dots> = (unat (snakeHead s) + (1 + k)) mod unat (pixelCount s)"
      by (simp add: mod_add_left_eq add.assoc)
    finally show ?thesis using r True by simp
  qed
qed

lemma single_pixel_step:
  assumes "stepDue now s" "pixelCount s = 1" "length (strip s) = 144" "snakeHead s = 0"
  shows "strip (runSnakeEffect now s) =
           applyBrightness s (solidColor (stripState s)) # replicate 143 black"
proof (rule nth_equalityI)
  show "length (strip (runSnakeEffect now s)) =
      length (applyBrightness s (solidColor (stripState s)) # replicate 143 black)"
    using assms(3) by (simp add: runSnakeEffect_fields)
next
  fix i assume "i < length (strip (runSnakeEffect now s))"
  then have i: "i < 144" using assms(3) by (simp add: runSnakeEffect_fields)
  have mx: "pixelCount s \<le> MaxPixelCount" using assms(2) by (simp add: MaxPixelCount_def)
  show "strip (runSnakeEffect now s) ! i =
      (applyBrightness s (solidColor (stripState s)) # replicate 143 black) ! i"
    using runSnakeEffect_nth[OF assms(1,3) mx i] assms(2,4) i
    by (cases i) (auto simp: snakeFade_values scaleColor_one SnakeSegmentLength_def)
qed

lemma single_pixel_head:
  assumes "pixelCount s = 1" "snakeHead s = 0"
  shows "snakeHead (runSnakeEffect now s) = 0"
proof (cases "stepDue now s")
  case True
  have "unat (snakeHead (runSnakeEffect now s)) = 0"
    using runSnakeEffect_head[OF True, of] assms by (simp add: MaxPixelCount_def)
  then show ?thesis by (simp add: unat_eq_0)
next
  case False
  then show ?thesis using assms by (simp add: runSnakeEffect_not_due)
qed

lemma snakeTicks_single_pixel:
  assumes "pixelCount s = 1" "length (strip s) = 144" "0 < fst (snakeTicks ts s)"
    and "snakeHead s = 0"
  shows "strip (snd (snakeTicks ts s)) =
           applyBrightness s (solidColor (stripState s)) # replicate 143 black"
  using assms
proof (induction ts arbitrary: s)
  case Nil
  then show ?case by simp
next
  case (Cons now ts)
  let ?s1 = "runSnakeEffect now s"
  obtain k s' where r: "snakeTicks ts ?s1 = (k, s')" by (cases "snakeTicks ts ?s1")
  have base: "applyBrightness ?s1 c = applyBrightness s c" for c
    by (rule applyBrightness_stripState) (simp add: runSnakeEffect_fields)
  show ?case
  proof (cases "0 < k")
    case True
    then have "strip (snd (snakeTicks ts ?s1)) =
        applyBrightness ?s1 (solidColor (stripState ?s1)) # replicate 143 black"
      using Cons.prems r single_pixel_head[of s now]
      by (intro Cons.IH) (simp_all add: runSnakeEffect_fields)
    then show ?thesis using r by (simp add: base runSnakeEffect_fields)
  next
    case False
    then have k0: "fst (snakeTicks ts ?s1) = 0" using r by simp
    then have "s' = ?s1" using snakeTicks_none[OF k0] r by simp
    moreover have "stepDue now s" using Cons.prems(3) r False by (auto split: if_splits)
    ultimately show ?thesis using r single_pixel_step[OF _ Cons.prems(1,2,4)] by simp
  qed
qed

text \<open>
  C9. From head 0 and a pixel count between 1 and \<open>MaxPixelCount\<close>, run
  \<open>runSnakeEffect\<close> at any sequence of clock readings: after \<open>k\<close> performed steps the head
  is \<open>k mod pixelCount\<close>, so it advances by one with every step and is 0 again when
  exactly \<open>pixelCount\<close> steps have been performed. With a pixel count of 1 the head is 0
  after every step, pixel 0 holds the brightness-scaled solid colour and every other
  pixel is black.
\<close>

theorem snake_head_wraps:
  assumes "snakeHead s = 0" and "1 \<le> pixelCount s" and "pixelCount s \<le> MaxPixelCount"
  shows "unat (snakeHead (snd (snakeTicks ts s))) =
           fst (snakeTicks ts s) mod unat (pixelCount s) \<and>
         (fst (snakeTicks ts s) = unat (pixelCount s) \<longrightarrow>
            snakeHead (snd (snakeTicks ts s)) = 0) \<and>
         (pixelCount s = 1 \<and> length (strip s) = 144 \<and> 0 < fst (snakeTicks ts s) \<longrightarrow>
            snakeHead (snd (snakeTicks ts s)) = 0 \<and>
            strip (snd (snakeTicks ts s)) =
              applyBrightness s (solidColor (stripState s)) # replicate 143 black)"
proof -
  have pos: "unat (snakeHead s) < unat (pixelCount s)"
    using assms(1,2) by (simp add: word_le_nat_alt)
  have h: "unat (snakeHead (snd (snakeTicks ts s))) =
      fst (snakeTicks ts s) mod unat (pixelCount s)"
    using snakeTicks_head[OF assms(2,3) _ pos, of ts] assms(1) by simp
  have z: "snakeHead (snd (snakeTicks ts s)) = 0"
    if "fst (snakeTicks ts s) mod unat (pixelCount s) = 0"
    using h that by (simp add: unat_eq_0)
  show ?thesis using h z snakeTicks_single_pixel[of s ts] assms(1) by auto
qed

lemma snakeExamples_fields: "snakeHead snakeThreePixels = 0" "pixelCount snakeThreePixels = 3"
  "snakeHead snakeOnePixel = 0" "pixelCount snakeOnePixel = 1" "length (strip snakeOnePixel) = 144"
  "snakeDirty snakeThreePixels" "snakeDirty snakeOnePixel"
  by (simp_all add: snakeThreePixels_def snakeOnePixel_def setPixelCount_def constrain_def MaxPixelCount_def
        StopAll_def initialGlobals_def)

lemma runSnakeEffect_last:
  "stepDue now s \<Longrightarrow> lastSnakeStepMs (runSnakeEffect now s) = now"
  by (simp add: runSnakeEffect_cases snakeStep_fields)

lemma snakeThreePixels_ticks: "fst (snakeTicks [100, 200, 300] snakeThreePixels) = 3"
proof -
  let ?s1 = "runSnakeEffect 100 snakeThreePixels"
  let ?s2 = "runSnakeEffect 200 ?s1"
  have d1: "stepDue 100 snakeThreePixels" by (simp add: stepDue_def snakeExamples_fields)
  have d2: "stepDue 200 ?s1"
    using runSnakeEffect_fields(4)[OF d1] runSnakeEffect_last[OF d1]
    by (simp add: stepDue_def SnakeStepDelayMs_def)
  have d3: "stepDue 300 ?s2"
    using runSnakeEffect_fields(4)[OF d2] runSnakeEffect_last[OF d2]
    by (simp add: stepDue_def SnakeStepDelayMs_def)
  show ?thesis by (simp add: snakeTicks_Cons d1 d2 d3 del: snakeTicks.simps(2))
qed

lemma snakeOnePixel_ticks: "fst (snakeTicks [100, 150, 200] snakeOnePixel) = 2"
proof -
  let ?s1 = "runSnakeEffect 100 snakeOnePixel"
  have d1: "stepDue 100 snakeOnePixel" by (simp add: stepDue_def snakeExamples_fields)
  have d2: "\<not> stepDue 150 ?s1"
    using runSnakeEffect_fields(4)[OF d1] runSnakeEffect_last[OF d1]
    by (simp add: stepDue_def SnakeStepDelayMs_def)
  have d3: "stepDue 200 ?s1"
    using runSnakeEffect_fields(4)[OF d1] runSnakeEffect_last[OF d1]
    by (simp add: stepDue_def SnakeStepDelayMs_def)
  show ?thesis
    by (simp add: snakeTicks_Cons d1 d2 d3 runSnakeEffect_not_due[OF d2] del: snakeTicks.simps(2))
qed

lemmas snakeExamples_ticks = snakeThreePixels_ticks snakeOnePixel_ticks

lemma snakeOnePixel_base: "applyBrightness snakeOnePixel (solidColor (stripState snakeOnePixel)) = RgbColor 100 31 3"
  by code_simp

lemma snakeThreePixels_first_ticks:
  "fst (snakeTicks [100] snakeThreePixels) = 1"
  "fst (snakeTicks [100, 200] snakeThreePixels) = 2"
proof -
  let ?s1 = "runSnakeEffect 100 snakeThreePixels"
  have d1: "stepDue 100 snakeThreePixels" by (simp add: stepDue_def snakeExamples_fields)
  have d2: "stepDue 200 ?s1"
    using runSnakeEffect_fields(4)[OF d1] runSnakeEffect_last[OF d1]
    by (simp add: stepDue_def SnakeStepDelayMs_def)
  show "fst (snakeTicks [100] snakeThreePixels) = 1"
    by (simp add: snakeTicks_Cons d1 del: snakeTicks.simps(2))
  show "fst (snakeTicks [100, 200] snakeThreePixels) = 2"
    by (simp add: snakeTicks_Cons d1 d2 del: snakeTicks.simps(2))
qed

text \<open>One, two and three steps on three pixels, the head at 1, 2 and 0; and two steps (the
  tick at 150 comes too early) on one pixel.\<close>

theorem snake_head_wraps_witness:
  "snakeHead snakeThreePixels = 0 \<and> 1 \<le> pixelCount snakeThreePixels \<and> pixelCount snakeThreePixels \<le> MaxPixelCount \<and>
   fst (snakeTicks [100] snakeThreePixels) = 1 \<and>
   snakeHead (snd (snakeTicks [100] snakeThreePixels)) = 1 \<and>
   fst (snakeTicks [100, 200] snakeThreePixels) = 2 \<and>
   snakeHead (snd (snakeTicks [100, 200] snakeThreePixels)) = 2 \<and>
   fst (snakeTicks [100, 200, 300] snakeThreePixels) = unat (pixelCount snakeThreePixels) \<and>
   snakeHead (snd (snakeTicks [100, 200, 300] snakeThreePixels)) = 0 \<and>
   snakeHead snakeOnePixel = 0 \<and> pixelCount snakeOnePixel = 1 \<and> length (strip snakeOnePixel) = 144 \<and>
   0 < fst (snakeTicks [100, 150, 200] snakeOnePixel) \<and>
   snakeHead (snd (snakeTicks [100, 150, 200] snakeOnePixel)) = 0 \<and>
   strip (snd (snakeTicks [100, 150, 200] snakeOnePixel)) = RgbColor 100 31 3 # replicate 143 black"
proof -
  have a: "snakeHead snakeThreePixels = 0" "1 \<le> pixelCount snakeThreePixels" "pixelCount snakeThreePixels \<le> MaxPixelCount"
    by (simp_all add: snakeExamples_fields MaxPixelCount_def)
  have b: "snakeHead snakeOnePixel = 0" "1 \<le> pixelCount snakeOnePixel" "pixelCount snakeOnePixel \<le> MaxPixelCount"
    by (simp_all add: snakeExamples_fields MaxPixelCount_def)
  have "unat (snakeHead (snd (snakeTicks [100] snakeThreePixels))) = unat (1 :: 16 word)"
    using snake_head_wraps[OF a, of "[100]"]
    by (simp add: snakeThreePixels_first_ticks snakeExamples_fields del: snakeTicks.simps)
  then have h1: "snakeHead (snd (snakeTicks [100] snakeThreePixels)) = 1"
    by (simp only: word_unat_eq_iff)
  have "unat (snakeHead (snd (snakeTicks [100, 200] snakeThreePixels))) = unat (2 :: 16 word)"
    using snake_head_wraps[OF a, of "[100, 200]"]
    by (simp add: snakeThreePixels_first_ticks snakeExamples_fields del: snakeTicks.simps)
  then have h2: "snakeHead (snd (snakeTicks [100, 200] snakeThreePixels)) = 2"
    by (simp only: word_unat_eq_iff)
  show ?thesis
    using snake_head_wraps[OF a, of "[100, 200, 300]"] snake_head_wraps[OF b, of "[100, 150, 200]"]
      a b h1 h2
    by (simp add: snakeExamples_ticks snakeThreePixels_first_ticks snakeExamples_fields
          snakeOnePixel_base del: snakeTicks.simps)
qed


section \<open>Fade cycles\<close>

lemma blendChannel_ends: "blendChannel a b 0 = a" "blendChannel a b 1 = b"
  by (simp_all add: blendChannel_def float_to_u8_of_u8)

lemma LinearBlend_start: "LinearBlend a b 0 = a"
  by (simp add: LinearBlend_def blendChannel_ends)

lemma LinearBlend_end: "LinearBlend a b 1 = b"
  by (simp add: LinearBlend_def blendChannel_ends)



lemma applyBrightness_zero:
  "brightness (stripState s) = 0 \<Longrightarrow> applyBrightness s c = black"
  by (simp add: applyBrightness_def brightnessScale_zero scaleColor_zero)

lemma FadeIn_fields:
  "EndingColor (fadeChannels (FadeInFadeOutRinseRepeat hsl r t l s)) = hsl (fl32 (of_int r / 360)) 1 l"
  "StartingColor (fadeChannels (FadeInFadeOutRinseRepeat hsl r t l s)) =
     (if IsAnimating s then EndingColor (fadeChannels s) else GetPixelColor 0 s)"
  "IsAnimating (FadeInFadeOutRinseRepeat hsl r t l s)"
  "strip (FadeInFadeOutRinseRepeat hsl r t l s) = strip s"
  "stripState (FadeInFadeOutRinseRepeat hsl r t l s) = stripState s"
  "pixelCount (FadeInFadeOutRinseRepeat hsl r t l s) = pixelCount s"
  by (simp_all add: FadeInFadeOutRinseRepeat_def StartAnimation_def IsAnimating_def Let_def)

lemma writeColor_fields:
  "pixelCount (writeColorToActivePixels c s) = pixelCount s"
  "animations (writeColorToActivePixels c s) = animations s"
  "fadeChannels (writeColorToActivePixels c s) = fadeChannels s"
  "stripState (writeColorToActivePixels c s) = stripState s"
  "solidDirty (writeColorToActivePixels c s) = solidDirty s"
  "offDirty (writeColorToActivePixels c s) = offDirty s"
  by (simp_all add: writeColorToActivePixels_def fold_SetPixelColor)

lemmas trace_simps = ensureEffectIsRunning_def applySolidColor_def turnStripOff_def Show_def
  BlendAnimUpdate_def UpdateAnimations_def FadeInFadeOutRinseRepeat_def StartAnimation_def
  StopAll_def IsAnimating_def GetPixelColor_def applyModeFromString_def setBrightness_def
  toLowerCase_def lowerChar_def constrain_u8 writeColor_fields writeColor_nth writeColor_length
  LinearBlend_start LinearBlend_end Let_def

lemma initial_fields: "effect (stripState initialGlobals) = Fade"
  "active (animations initialGlobals) = False" "pixelCount initialGlobals = 12"
  "length (strip initialGlobals) = 144" "strip initialGlobals ! 0 = black"
  "solidDirty initialGlobals" "offDirty initialGlobals"
  "solidColor (stripState initialGlobals) = RgbColor 255 80 10"
  "brightness (stripState initialGlobals) = 160"
  by (simp_all add: initialGlobals_def)

lemma solidShown_fields:
  "effect (stripState solidShown) = Solid" "active (animations solidShown) = False"
  "pixelCount solidShown = 12" "length (strip solidShown) = 144"
  "strip solidShown ! 0 = applyBrightness initialGlobals (RgbColor 255 80 10)"
  "brightness (stripState solidShown) = 160"
proof -
  let ?s = "snd (applyModeFromString ''solid'' initialGlobals)"
  have f: "effect (stripState ?s) = Solid" "active (animations ?s) = False"
    "pixelCount ?s = 12" "length (strip ?s) = 144" "solidDirty ?s"
    "solidColor (stripState ?s) = RgbColor 255 80 10" "brightness (stripState ?s) = 160"
    by (simp_all add: trace_simps initial_fields)
  have b: "applyBrightness ?s c = applyBrightness initialGlobals c" for c
    by (simp add: applyBrightness_def brightnessScale_def f initial_fields)
  have e: "solidShown = applySolidColor ?s"
    by (simp add: solidShown_def ensureEffectIsRunning_def IsAnimating_def f)
  show "effect (stripState solidShown) = Solid" "active (animations solidShown) = False"
    "pixelCount solidShown = 12" "length (strip solidShown) = 144"
    "strip solidShown ! 0 = applyBrightness initialGlobals (RgbColor 255 80 10)"
    "brightness (stripState solidShown) = 160"
    unfolding e
    by (simp_all add: applySolidColor_def Show_def writeColor_fields writeColor_nth
          writeColor_length f b)
qed

lemma fadeAtZero_fields:
  "effect (stripState fadeAtZero) = Fade" "active (animations fadeAtZero) = False"
  "pixelCount fadeAtZero = 12" "length (strip fadeAtZero) = 144"
  "strip fadeAtZero ! 0 = RgbColor 100 31 3"
  "brightness (stripState fadeAtZero) = 0"
  by (simp_all add: fadeAtZero_def trace_simps solidShown_fields applyBrightness_initial)



lemma fadeAtZero_black: "applyBrightness fadeAtZero (solidColor (stripState fadeAtZero)) = RgbColor 0 0 0"
  using applyBrightness_zero[of fadeAtZero] by (simp add: fadeAtZero_fields black_def)

lemma brightnessToLuminance_stripState:
  "stripState s = stripState t \<Longrightarrow> brightnessToLuminance s = brightnessToLuminance t"
  by (simp add: brightnessToLuminance_def brightnessScale_def)

lemma first_target: "redHsl 0 1 (brightnessToLuminance initialGlobals) = RgbColor 100 0 0"
  by code_simp

lemma firstCycleDone_fields:
  "effect (stripState firstCycleDone) = Fade" "active (animations firstCycleDone) = False"
  "pixelCount firstCycleDone = 12" "length (strip firstCycleDone) = 144"
  "strip firstCycleDone ! 0 = RgbColor 100 0 0"
  "EndingColor (fadeChannels firstCycleDone) = RgbColor 100 0 0"
proof -
  define a where "a = ensureEffectIsRunning redHsl quietPass initialGlobals"
  have l: "brightnessToLuminance (initialGlobals\<lparr>offDirty := True, solidDirty := True\<rparr>)
      = brightnessToLuminance initialGlobals"
    by (rule brightnessToLuminance_stripState) simp
  have a: "effect (stripState a) = Fade" "active (animations a) = True"
    "pixelCount a = 12" "length (strip a) = 144"
    "fadeChannels a = \<lparr>StartingColor = black, EndingColor = RgbColor 100 0 0\<rparr>"
    unfolding a_def
    by (simp_all add: trace_simps initial_fields quietPass_def l fl32_zero first_target)
  have c: "firstCycleDone = ensureEffectIsRunning redHsl completingPass a"
    by (simp add: firstCycleDone_def a_def)
  show "effect (stripState firstCycleDone) = Fade" "active (animations firstCycleDone) = False"
    "pixelCount firstCycleDone = 12" "length (strip firstCycleDone) = 144"
    "strip firstCycleDone ! 0 = RgbColor 100 0 0"
    "EndingColor (fadeChannels firstCycleDone) = RgbColor 100 0 0"
    unfolding c by (simp_all add: trace_simps a completingPass_def)
qed

lemma offShown_fields:
  "active (animations offShown) = False" "length (strip offShown) = 144"
  "strip offShown ! 0 = black" "effect (stripState offShown) = Off"
  "fadeChannels offShown = fadeChannels firstCycleDone"
  by (simp_all add: offShown_def trace_simps firstCycleDone_fields quietPass_def)

text \<open>
  C3 as stated fails when Fade mode is entered a second time. The first cycle has
  completed with the ending colour (100,0,0); after Off mode has blanked the strip, the
  cycle started on re-entering Fade mode starts from black, the colour read back from
  pixel 0, not from the ending colour of the cycle before it.
\<close>

theorem fade_restart_reads_strip:
  "\<not> IsAnimating firstCycleDone \<and> EndingColor (fadeChannels firstCycleDone) = RgbColor 100 0 0 \<and>
   strip firstCycleDone ! 0 = RgbColor 100 0 0 \<and>
   effect (stripState secondCycle) = Fade \<and> IsAnimating secondCycle \<and>
   StartingColor (fadeChannels secondCycle) = RgbColor 0 0 0"
  by (simp add: secondCycle_def trace_simps offShown_fields firstCycleDone_fields quietPass_def black_def)

lemma ensure_Fade:
  "effect (stripState s) = Fade \<Longrightarrow>
   ensureEffectIsRunning hsl env s =
     Show (UpdateAnimations (tick env)
       (if IsAnimating s then s\<lparr>offDirty := True, solidDirty := True\<rparr>
        else FadeInFadeOutRinseRepeat hsl (random360 env) (randomTime env)
               (brightnessToLuminance (s\<lparr>offDirty := True, solidDirty := True\<rparr>))
               (s\<lparr>offDirty := True, solidDirty := True\<rparr>)))"
  by (simp add: ensureEffectIsRunning_def IsAnimating_def Let_def)

lemma BlendAnimUpdate_fadeChannels: "fadeChannels (BlendAnimUpdate p s) = fadeChannels s"
  by (simp add: BlendAnimUpdate_def Let_def writeColor_fields)

lemma UpdateAnimations_fadeChannels: "fadeChannels (UpdateAnimations t s) = fadeChannels s"
  by (cases t) (simp_all add: UpdateAnimations_def BlendAnimUpdate_fadeChannels StopAll_def)

text \<open>
  C3, as amended. \<open>FadeInFadeOutRinseRepeat\<close> takes the starting colour of the new cycle
  from the ending colour of the previous one when an animation is running, and from pixel
  0 of the strip otherwise. \<open>ensureEffectIsRunning\<close> starts a cycle only when no animation
  is running, so every cycle it starts, the first and each later one, starts from the colour
  read back from pixel 0; while a cycle runs the endpoints stay as they are. When a cycle
  completes in Fade mode its last update writes its ending colour to the active pixels,
  so the cycle started by the next pass starts from the ending colour of the one before.
\<close>

theorem fade_cycle_start:
  "StartingColor (fadeChannels (FadeInFadeOutRinseRepeat hsl r tm l s)) =
     (if IsAnimating s then EndingColor (fadeChannels s) else GetPixelColor 0 s) \<and>
   (effect (stripState s) = Fade \<and> \<not> IsAnimating s \<longrightarrow>
      StartingColor (fadeChannels (ensureEffectIsRunning hsl env s)) = GetPixelColor 0 s) \<and>
   (effect (stripState s) = Fade \<and> IsAnimating s \<longrightarrow>
      fadeChannels (ensureEffectIsRunning hsl env s) = fadeChannels s) \<and>
   (effect (stripState s) = Fade \<and> IsAnimating s \<and> tick env = Completed \<and>
    length (strip s) = 144 \<and> 1 \<le> pixelCount s \<longrightarrow>
      \<not> IsAnimating (ensureEffectIsRunning hsl env s) \<and>
      GetPixelColor 0 (ensureEffectIsRunning hsl env s) = EndingColor (fadeChannels s) \<and>
      StartingColor (fadeChannels
          (ensureEffectIsRunning hsl env' (ensureEffectIsRunning hsl env s)))
        = EndingColor (fadeChannels s))"
proof -
  have one: "StartingColor (fadeChannels (FadeInFadeOutRinseRepeat hsl r tm l s)) =
     (if IsAnimating s then EndingColor (fadeChannels s) else GetPixelColor 0 s)"
    by (simp add: FadeIn_fields)
  have two: "StartingColor (fadeChannels (ensureEffectIsRunning hsl env s)) = GetPixelColor 0 s"
    if "effect (stripState s) = Fade" "\<not> IsAnimating s"
    using that
    by (simp add: ensure_Fade Show_def UpdateAnimations_fadeChannels FadeIn_fields
          IsAnimating_def GetPixelColor_def)
  have three: "fadeChannels (ensureEffectIsRunning hsl env s) = fadeChannels s"
    if "effect (stripState s) = Fade" "IsAnimating s"
    using that by (simp add: ensure_Fade Show_def UpdateAnimations_fadeChannels)
  have four: "\<not> IsAnimating (ensureEffectIsRunning hsl env s) \<and>
      GetPixelColor 0 (ensureEffectIsRunning hsl env s) = EndingColor (fadeChannels s) \<and>
      StartingColor (fadeChannels
          (ensureEffectIsRunning hsl env' (ensureEffectIsRunning hsl env s)))
        = EndingColor (fadeChannels s)"
    if f: "effect (stripState s) = Fade" and a: "IsAnimating s" and t: "tick env = Completed"
      and len: "length (strip s) = 144" and n: "1 \<le> pixelCount s"
  proof -
    let ?s' = "ensureEffectIsRunning hsl env s"
    have pos: "0 < unat (pixelCount s)" using n by (simp add: word_le_nat_alt)
    have e: "effect (stripState ?s') = Fade"
      using f a t
      by (simp add: ensure_Fade Show_def UpdateAnimations_def BlendAnimUpdate_def
            IsAnimating_def StopAll_def writeColor_fields Let_def)
    have i: "\<not> IsAnimating ?s'"
      using f a t
      by (simp add: ensure_Fade Show_def UpdateAnimations_def BlendAnimUpdate_def
            IsAnimating_def StopAll_def writeColor_fields Let_def)
    have p: "GetPixelColor 0 ?s' = EndingColor (fadeChannels s)"
      using f a t len pos
      by (simp add: ensure_Fade Show_def UpdateAnimations_def BlendAnimUpdate_def
            IsAnimating_def StopAll_def GetPixelColor_def writeColor_nth LinearBlend_end Let_def)
    have "StartingColor (fadeChannels (ensureEffectIsRunning hsl env' ?s')) = GetPixelColor 0 ?s'"
      using e i
      by (simp add: ensure_Fade Show_def UpdateAnimations_fadeChannels FadeIn_fields
            IsAnimating_def GetPixelColor_def)
    then show ?thesis using i p by simp
  qed
  show ?thesis using one two three four by blast
qed

text \<open>The first pass on the initial state starts a cycle from pixel 0; the pass in which
  that cycle completes is followed by a cycle that starts from its ending colour.\<close>

theorem fade_cycle_start_witness:
  "effect (stripState initialGlobals) = Fade \<and> \<not> IsAnimating initialGlobals \<and>
   StartingColor (fadeChannels (ensureEffectIsRunning redHsl quietPass initialGlobals))
     = GetPixelColor 0 initialGlobals \<and>
   effect (stripState (ensureEffectIsRunning redHsl quietPass initialGlobals)) = Fade \<and>
   IsAnimating (ensureEffectIsRunning redHsl quietPass initialGlobals) \<and>
   tick completingPass = Completed \<and>
   length (strip (ensureEffectIsRunning redHsl quietPass initialGlobals)) = 144 \<and>
   1 \<le> pixelCount (ensureEffectIsRunning redHsl quietPass initialGlobals) \<and>
   \<not> IsAnimating firstCycleDone \<and>
   GetPixelColor 0 firstCycleDone
     = EndingColor (fadeChannels (ensureEffectIsRunning redHsl quietPass initialGlobals)) \<and>
   StartingColor (fadeChannels (ensureEffectIsRunning redHsl quietPass firstCycleDone))
     = EndingColor (fadeChannels (ensureEffectIsRunning redHsl quietPass initialGlobals))"
proof -
  define a where "a = ensureEffectIsRunning redHsl quietPass initialGlobals"
  have i: "effect (stripState initialGlobals) = Fade" "\<not> IsAnimating initialGlobals"
    by (simp_all add: initial_fields IsAnimating_def)
  have a: "effect (stripState a) = Fade" "IsAnimating a" "length (strip a) = 144"
    "1 \<le> pixelCount a"
    unfolding a_def by (simp_all add: trace_simps initial_fields quietPass_def)
  have d: "tick completingPass = Completed" by (simp add: completingPass_def)
  have c: "firstCycleDone = ensureEffectIsRunning redHsl completingPass a"
    by (simp add: firstCycleDone_def a_def)
  show ?thesis
    using fade_cycle_start[of redHsl 0 2000 0 initialGlobals quietPass quietPass]
      fade_cycle_start[of redHsl 0 2000 0 a completingPass quietPass] i a d
    unfolding c a_def[symmetric] by simp
qed













section \<open>The pixel count stays in range\<close>

lemma constrain_range:
  "low \<le> high \<Longrightarrow> low \<le> constrain v low high \<and> constrain v low high \<le> high"
  by (auto simp: constrain_def)

lemma initialGlobals_countInRange: "countInRange initialGlobals"
  by (simp add: countInRange_def initialGlobals_def MaxPixelCount_def)

lemma mutators_pixelCount:
  "pixelCount (snd (applyModeFromString v s)) = pixelCount s"
  "pixelCount (snd (setBrightness b s)) = pixelCount s"
  "pixelCount (snd (setSolidColor r g bl s)) = pixelCount s"
  "pixelCount (snd (setPixelCount n s)) = constrain n 1 MaxPixelCount"
  by (auto simp: applyModeFromString_def setBrightness_def setSolidColor_def setPixelCount_def
        StopAll_def Let_def)

lemma handleControlRequest_pixelCount:
  "pixelCount (snd (handleControlRequest req s)) =
     (case req_count req of None \<Rightarrow> pixelCount s
      | Some v \<Rightarrow> constrain (word_of_int (constrain v 1 144)) 1 MaxPixelCount)"
  by (simp add: handleControlRequest_def Let_def case_prod_beta mutators_pixelCount
        split: option.splits)

lemma handleControlRequest_countInRange:
  "countInRange s \<Longrightarrow> countInRange (snd (handleControlRequest req s))"
  using constrain_range[of 1 MaxPixelCount]
  by (simp add: countInRange_def handleControlRequest_pixelCount MaxPixelCount_def
        split: option.splits)

lemma ensureEffectIsRunning_pixelCount:
  "pixelCount (ensureEffectIsRunning hsl env s) = pixelCount s"
proof (cases "effect (stripState s)")
  case Fade
  have u: "pixelCount (UpdateAnimations t x) = pixelCount x" for t x
    by (cases t) (simp_all add: UpdateAnimations_def BlendAnimUpdate_def StopAll_def
          writeColor_fields Let_def)
  show ?thesis using Fade by (simp add: ensure_Fade Show_def u FadeIn_fields)
next
  case Solid
  then show ?thesis
    by (simp add: ensureEffectIsRunning_def applySolidColor_def Show_def StopAll_def
          writeColor_fields Let_def)
next
  case Snake
  then show ?thesis
    by (simp add: ensureEffectIsRunning_def runSnakeEffect_fields StopAll_def Let_def)
next
  case Off
  then show ?thesis
    by (simp add: ensureEffectIsRunning_def turnStripOff_def Show_def StopAll_def
          writeColor_fields Let_def)
qed

end
